theory Spec2Isabelle
  imports Complex_Main
begin

section \<open>Python numerics and strings\<close>

text \<open>
  The analytics core works on Python floats. They are embedded as HOL reals, and the
  functions are read in one of two ways. Where a result is a formula, a continuous
  value or a comparison with a literal threshold, the operations are the exact ones of
  the reals. Where a discrete result hinges on the last bit of a computed double (the
  flags of the IQR detector, the truncated overall health score), every operation is
  rounded as IEEE 754 prescribes (section \<open>IEEE 754 doubles\<close>). The rounding and
  truncating conversions of the source are written out.

  \<^item> \<open>round(x)\<close> rounds to the nearest integer, a tie going to the even neighbour;
  \<^item> \<open>round(x, n)\<close> does the same at the n-th decimal;
  \<^item> \<open>int(x)\<close> truncates toward zero.
\<close>

definition py_round :: "real \<Rightarrow> int" where
  "py_round x =
     (let f = \<lfloor>x\<rfloor>; d = x - of_int f
      in if d < 1 / 2 then f else if 1 / 2 < d then f + 1 else if even f then f else f + 1)"

definition py_round_nd :: "real \<Rightarrow> nat \<Rightarrow> real" where
  "py_round_nd x n = of_int (py_round (x * 10 ^ n)) / 10 ^ n"

definition py_int :: "real \<Rightarrow> int" where
  "py_int x = (if 0 \<le> x then \<lfloor>x\<rfloor> else \<lceil>x\<rceil>)"

text \<open>\<open>d.get(k, default)\<close> on a dictionary.\<close>

definition dict_get :: "('k \<Rightarrow> 'v option) \<Rightarrow> 'k \<Rightarrow> 'v \<Rightarrow> 'v" where
  "dict_get d k dflt = (case d k of None \<Rightarrow> dflt | Some v \<Rightarrow> v)"

text \<open>
  The two accepted values of the \<open>gender\<close> field are one-character Chinese strings;
  they are written as their UTF-8 bytes (U+7537 and U+5973).
\<close>

definition gender_male :: string where
  "gender_male = [CHR 0xE7, CHR 0x94, CHR 0xB7]"

definition gender_female :: string where
  "gender_female = [CHR 0xE5, CHR 0xA5, CHR 0xB3]"


section \<open>Metabolic syndrome (metabolic.py)\<close>

text \<open>
  \<open>MetabolicRiskInput\<close>, field by field. Record fields carry a prefix because several
  input classes of the source share field names.
\<close>

record MetabolicRiskInput =
  m_waist :: real
  m_gender :: string
  m_triglycerides :: real
  m_hdl_cholesterol :: real
  m_systolic_bp :: real
  m_diastolic_bp :: real
  m_fasting_glucose :: real
  m_on_bp_medication :: bool
  m_on_lipid_medication :: bool
  m_on_glucose_medication :: bool

definition WAIST_THRESHOLD :: "string \<Rightarrow> real option" where
  "WAIST_THRESHOLD g =
     (if g = gender_male then Some 90 else if g = gender_female then Some 80 else None)"

definition HDL_THRESHOLD :: "string \<Rightarrow> real option" where
  "HDL_THRESHOLD g =
     (if g = gender_male then Some 40 else if g = gender_female then Some 50 else None)"

text \<open>
  One entry of \<open>criteria_details\<close>. The display strings of an entry (name, criterion,
  formatted value) do not enter any computation and are left out; \<open>on_treatment\<close> is
  absent from the first entry of the source, hence the option.
\<close>

record criterion_detail =
  cd_abnormal :: bool
  cd_on_treatment :: "bool option"
  cd_met :: bool

text \<open>
  The result dictionary of \<open>MetabolicSyndromeCalculator.calculate\<close>, without the
  \<open>factors\<close>, \<open>recommendations\<close> and \<open>details\<close> texts.
\<close>

record MetabolicResult =
  ms_has_metabolic_syndrome :: bool
  ms_criteria_met :: int
  ms_total_criteria :: int
  ms_risk_level :: string
  ms_score :: int
  ms_criteria_details :: "criterion_detail list"

definition metabolic_get_risk_level :: "int \<Rightarrow> string" where
  "metabolic_get_risk_level criteria_met =
     (if criteria_met = 0 then ''low''
      else if criteria_met \<le> 2 then ''medium''
      else ''high'')"

text \<open>
  \<open>calculate\<close> keeps a running counter \<open>criteria_met\<close> and appends to
  \<open>criteria_details\<close>; the model threads both through a chain of \<open>let\<close>s in the
  order of the source.
\<close>

definition metabolic_calculate :: "MetabolicRiskInput \<Rightarrow> MetabolicResult" where
  "metabolic_calculate input_data =
     (let criteria_details = [];
          criteria_met = (0::int);
          waist_threshold = dict_get WAIST_THRESHOLD (m_gender input_data) 90;
          waist_abnormal = (m_waist input_data \<ge> waist_threshold);
          criteria_details = criteria_details @
            [\<lparr>cd_abnormal = waist_abnormal, cd_on_treatment = None, cd_met = waist_abnormal\<rparr>];
          criteria_met = (if waist_abnormal then criteria_met + 1 else criteria_met);
          tg_abnormal = (m_triglycerides input_data \<ge> 150 \<or> m_on_lipid_medication input_data);
          criteria_details = criteria_details @
            [\<lparr>cd_abnormal = (m_triglycerides input_data \<ge> 150),
              cd_on_treatment = Some (m_on_lipid_medication input_data),
              cd_met = tg_abnormal\<rparr>];
          criteria_met = (if tg_abnormal then criteria_met + 1 else criteria_met);
          hdl_threshold = dict_get HDL_THRESHOLD (m_gender input_data) 40;
          hdl_abnormal =
            (m_hdl_cholesterol input_data < hdl_threshold \<or> m_on_lipid_medication input_data);
          criteria_details = criteria_details @
            [\<lparr>cd_abnormal = (m_hdl_cholesterol input_data < hdl_threshold),
              cd_on_treatment = Some (m_on_lipid_medication input_data),
              cd_met = hdl_abnormal\<rparr>];
          criteria_met = (if hdl_abnormal then criteria_met + 1 else criteria_met);
          bp_abnormal =
            (m_systolic_bp input_data \<ge> 130 \<or> m_diastolic_bp input_data \<ge> 85
             \<or> m_on_bp_medication input_data);
          criteria_details = criteria_details @
            [\<lparr>cd_abnormal = (m_systolic_bp input_data \<ge> 130 \<or> m_diastolic_bp input_data \<ge> 85),
              cd_on_treatment = Some (m_on_bp_medication input_data),
              cd_met = bp_abnormal\<rparr>];
          criteria_met = (if bp_abnormal then criteria_met + 1 else criteria_met);
          glucose_abnormal =
            (m_fasting_glucose input_data \<ge> 56 / 10 \<or> m_on_glucose_medication input_data);
          criteria_details = criteria_details @
            [\<lparr>cd_abnormal = (m_fasting_glucose input_data \<ge> 56 / 10),
              cd_on_treatment = Some (m_on_glucose_medication input_data),
              cd_met = glucose_abnormal\<rparr>];
          criteria_met = (if glucose_abnormal then criteria_met + 1 else criteria_met);
          has_metabolic_syndrome = (criteria_met \<ge> 3);
          risk_level = metabolic_get_risk_level criteria_met;
          score = criteria_met * 20
      in \<lparr>ms_has_metabolic_syndrome = has_metabolic_syndrome,
          ms_criteria_met = criteria_met,
          ms_total_criteria = 5,
          ms_risk_level = risk_level,
          ms_score = score,
          ms_criteria_details = criteria_details\<rparr>)"

text \<open>
  The five criteria as the specification words them: each is met when the measurement
  is abnormal or the matching treatment is taken (the waist criterion has no treatment).
  This list is the yardstick the counter of the code is compared with.
\<close>

definition spec_criteria :: "MetabolicRiskInput \<Rightarrow> bool list" where
  "spec_criteria d =
     [m_waist d \<ge> (if m_gender d = gender_female then 80 else 90),
      m_triglycerides d \<ge> 150 \<or> m_on_lipid_medication d,
      m_hdl_cholesterol d < (if m_gender d = gender_female then 50 else 40)
        \<or> m_on_lipid_medication d,
      m_systolic_bp d \<ge> 130 \<or> m_diastolic_bp d \<ge> 85 \<or> m_on_bp_medication d,
      m_fasting_glucose d \<ge> 56 / 10 \<or> m_on_glucose_medication d]"

definition count_true :: "bool list \<Rightarrow> int" where
  "count_true bs = int (length (filter (\<lambda>b. b) bs))"

text \<open>A patient with a large waist, high triglycerides and raised blood pressure.\<close>

definition metabolic_example :: MetabolicRiskInput where
  "metabolic_example =
     \<lparr>m_waist = 95, m_gender = gender_male, m_triglycerides = 180,
      m_hdl_cholesterol = 45, m_systolic_bp = 135, m_diastolic_bp = 80,
      m_fasting_glucose = 5, m_on_bp_medication = False,
      m_on_lipid_medication = False, m_on_glucose_medication = False\<rparr>"


section \<open>Diabetes risk, FINDRISC (diabetes.py)\<close>

record DiabetesRiskInput =
  d_age :: int
  d_bmi :: real
  d_waist :: real
  d_gender :: string
  d_on_bp_medication :: bool
  d_history_high_glucose :: bool
  d_daily_physical_activity :: bool
  d_daily_fruit_vegetable :: bool
  d_family_diabetes :: string

text \<open>
  The result dictionary of \<open>FINDRISCCalculator.calculate\<close>. \<open>score_breakdown\<close> keeps,
  per key and in insertion order, the sub-score of the entry; the display values and
  labels of an entry and the \<open>factors\<close>, \<open>recommendations\<close> and \<open>details\<close> texts are
  left out.
\<close>

record FindriscResult =
  fr_total_score :: int
  fr_risk_percentage :: real
  fr_risk_level :: string
  fr_score :: int
  fr_score_breakdown :: "(string \<times> int) list"

definition score_age :: "int \<Rightarrow> int" where
  "score_age age = (if age < 45 then 0 else if age < 55 then 2 else if age < 65 then 3 else 4)"

definition score_bmi :: "real \<Rightarrow> int" where
  "score_bmi bmi = (if bmi < 25 then 0 else if bmi < 30 then 1 else 3)"

definition score_waist :: "real \<Rightarrow> string \<Rightarrow> int" where
  "score_waist waist gender =
     (if gender = gender_male
      then (if waist < 94 then 0 else if waist < 102 then 3 else 4)
      else (if waist < 80 then 0 else if waist < 88 then 3 else 4))"

definition score_family_history :: "string \<Rightarrow> int" where
  "score_family_history family =
     (if family = ''first_degree'' then 5
      else if family = ''second_degree'' then 3
      else 0)"

definition findrisc_get_risk_level :: "int \<Rightarrow> string \<times> real" where
  "findrisc_get_risk_level score =
     (if score < 7 then (''low'', 1)
      else if score < 12 then (''low'', 4)
      else if score < 15 then (''medium'', 17)
      else if score < 21 then (''high'', 33)
      else (''high'', 50))"

definition findrisc_calculate :: "DiabetesRiskInput \<Rightarrow> FindriscResult" where
  "findrisc_calculate input_data =
     (let score_breakdown = [];
          total_score = (0::int);
          age_score = score_age (d_age input_data);
          score_breakdown = score_breakdown @ [(''age'', age_score)];
          total_score = total_score + age_score;
          bmi_score = score_bmi (d_bmi input_data);
          score_breakdown = score_breakdown @ [(''bmi'', bmi_score)];
          total_score = total_score + bmi_score;
          waist_score = score_waist (d_waist input_data) (d_gender input_data);
          score_breakdown = score_breakdown @ [(''waist'', waist_score)];
          total_score = total_score + waist_score;
          activity_score = (if d_daily_physical_activity input_data then 0 else 2);
          score_breakdown = score_breakdown @ [(''activity'', activity_score)];
          total_score = total_score + activity_score;
          diet_score = (if d_daily_fruit_vegetable input_data then 0 else 1);
          score_breakdown = score_breakdown @ [(''diet'', diet_score)];
          total_score = total_score + diet_score;
          bp_med_score = (if d_on_bp_medication input_data then 2 else 0);
          score_breakdown = score_breakdown @ [(''bp_medication'', bp_med_score)];
          total_score = total_score + bp_med_score;
          glucose_score = (if d_history_high_glucose input_data then 5 else 0);
          score_breakdown = score_breakdown @ [(''high_glucose'', glucose_score)];
          total_score = total_score + glucose_score;
          family_score = score_family_history (d_family_diabetes input_data);
          score_breakdown = score_breakdown @ [(''family'', family_score)];
          total_score = total_score + family_score;
          (risk_level, risk_percentage) = findrisc_get_risk_level total_score;
          normalized_score = min 100 (py_int (real_of_int (total_score * 100) / 26))
      in \<lparr>fr_total_score = total_score,
          fr_risk_percentage = risk_percentage,
          fr_risk_level = risk_level,
          fr_score = normalized_score,
          fr_score_breakdown = score_breakdown\<rparr>)"

text \<open>
  The normalised score as the specification words it, \<open>min(100, round(total * 100 / 26))\<close>,
  for comparison with the \<open>int(...)\<close> of the code.
\<close>

definition spec_findrisc_score :: "int \<Rightarrow> int" where
  "spec_findrisc_score total_score = min 100 (py_round (real_of_int (total_score * 100) / 26))"

text \<open>A 50 year old woman with no other risk factor: the only points are 2 for age.\<close>

definition findrisc_example :: DiabetesRiskInput where
  "findrisc_example =
     \<lparr>d_age = 50, d_bmi = 22, d_waist = 70, d_gender = gender_female,
      d_on_bp_medication = False, d_history_high_glucose = False,
      d_daily_physical_activity = True, d_daily_fruit_vegetable = True,
      d_family_diabetes = ''none''\<rparr>"


section \<open>Exceptions (trend_analysis.py)\<close>

text \<open>
  The functions of \<open>trend_analysis.py\<close> divide by computed values and index into
  lists. A raised exception is a value of the model: functions that can raise return
  \<open>py_error + 'a\<close>, with \<open>Inl\<close> for the exception, and \<open>bind_r\<close> passes the first
  exception on, as the interpreter does.
\<close>

datatype py_error = ZeroDivisionError | IndexError | OverflowError

definition bind_r :: "py_error + 'a \<Rightarrow> ('a \<Rightarrow> py_error + 'b) \<Rightarrow> py_error + 'b" where
  "bind_r m f = (case m of Inl e \<Rightarrow> Inl e | Inr v \<Rightarrow> f v)"

definition py_truediv :: "real \<Rightarrow> real \<Rightarrow> py_error + real" where
  "py_truediv a b = (if b = 0 then Inl ZeroDivisionError else Inr (a / b))"

text \<open>\<open>xs[i]\<close>: a negative index counts from the end.\<close>

definition py_index :: "'a list \<Rightarrow> int \<Rightarrow> py_error + 'a" where
  "py_index xs i =
     (if 0 \<le> i \<and> i < int (length xs) then Inr (xs ! nat i)
      else if i < 0 \<and> - int (length xs) \<le> i then Inr (xs ! nat (int (length xs) + i))
      else Inl IndexError)"

text \<open>\<open>xs[a:b]\<close> for bounds that are not negative.\<close>

definition py_slice :: "'a list \<Rightarrow> nat \<Rightarrow> nat \<Rightarrow> 'a list" where
  "py_slice xs a b = drop a (take b xs)"

text \<open>\<open>enumerate(xs)\<close>.\<close>

definition enumerate_py :: "'a list \<Rightarrow> (nat \<times> 'a) list" where
  "enumerate_py xs = zip [0..<length xs] xs"

section \<open>IEEE 754 doubles\<close>

text \<open>
  A Python float is an IEEE 754 binary64 number. A finite double is embedded as the real
  number it denotes, and an arithmetic operation on doubles returns the exact result
  rounded to the nearest double, a tie going to the even significand. \<open>fl\<close> is that
  rounding: 53 significant bits from the exponent -1022 upwards, and the fixed spacing
  \<open>2 powi - 1074\<close> below it (gradual underflow). A literal such as \<open>0.15\<close> denotes
  \<open>fl (15 / 100)\<close>. The infinities and NaN are no reals: a result beyond \<open>max_double\<close>
  is outside the model, and the statements about doubles bound their inputs so that
  every intermediate result stays below it.
\<close>

definition float_exponent :: "real \<Rightarrow> int" where
  "float_exponent x = max \<lfloor>log 2 \<bar>x\<bar>\<rfloor> (- 1022)"

definition ulp :: "real \<Rightarrow> real" where
  "ulp x = 2 powi (float_exponent x - 52)"

definition fl :: "real \<Rightarrow> real" where
  "fl x = (if x = 0 then 0 else of_int (py_round (x / ulp x)) * ulp x)"

definition max_double :: real where
  "max_double = (2 ^ 53 - 1) * 2 ^ 971"

definition is_double :: "real \<Rightarrow> bool" where
  "is_double x \<longleftrightarrow> fl x = x \<and> \<bar>x\<bar> \<le> max_double"

text \<open>The operators \<open>+\<close>, \<open>-\<close>, \<open>*\<close> and \<open>/\<close> on floats; \<open>f_div\<close> is a division by a literal.\<close>

definition f_add :: "real \<Rightarrow> real \<Rightarrow> real" where
  "f_add x y = fl (x + y)"

definition f_sub :: "real \<Rightarrow> real \<Rightarrow> real" where
  "f_sub x y = fl (x - y)"

definition f_mul :: "real \<Rightarrow> real \<Rightarrow> real" where
  "f_mul x y = fl (x * y)"

definition f_div :: "real \<Rightarrow> real \<Rightarrow> real" where
  "f_div x y = fl (x / y)"

definition f_truediv :: "real \<Rightarrow> real \<Rightarrow> py_error + real" where
  "f_truediv x y = (if y = 0 then Inl ZeroDivisionError else Inr (fl (x / y)))"

text \<open>
  \<open>round(x, n)\<close> on a float: the exact value of \<open>x\<close> is rounded to n decimals, a tie
  going to the even digit, and the decimal is converted to the nearest double.
\<close>

definition float_round :: "real \<Rightarrow> nat \<Rightarrow> real" where
  "float_round x n = fl (py_round_nd x n)"


section \<open>Health score (trend_analysis.py, HealthScoreCalculator)\<close>

text \<open>
  \<open>WEIGHTS\<close> is a dictionary with seven literal keys that is only ever read at those
  literal keys; it is a record of seven numbers.
\<close>

record weights =
  w_heart_rate :: real
  w_blood_pressure :: real
  w_blood_sugar :: real
  w_sleep :: real
  w_activity :: real
  w_weight :: real
  w_spo2 :: real

definition WEIGHTS :: weights where
  "WEIGHTS = \<lparr>w_heart_rate = 15 / 100, w_blood_pressure = 20 / 100,
     w_blood_sugar = 15 / 100, w_sleep = 15 / 100, w_activity = 15 / 100,
     w_weight = 10 / 100, w_spo2 = 10 / 100\<rparr>"

text \<open>The band table \<open>ranges\<close>: per metric the optimal and the normal interval.\<close>

record bands =
  optimal :: "real \<times> real"
  normal :: "real \<times> real"

definition ranges :: "string \<Rightarrow> bands option" where
  "ranges = map_of
     [(''heart_rate'', \<lparr>optimal = (60, 80), normal = (50, 100)\<rparr>),
      (''blood_pressure_sys'', \<lparr>optimal = (100, 120), normal = (90, 140)\<rparr>),
      (''blood_pressure_dia'', \<lparr>optimal = (60, 80), normal = (60, 90)\<rparr>),
      (''blood_sugar'', \<lparr>optimal = (4, 55 / 10), normal = (39 / 10, 61 / 10)\<rparr>),
      (''spo2'', \<lparr>optimal = (97, 100), normal = (94, 100)\<rparr>),
      (''sleep_duration'', \<lparr>optimal = (7, 8), normal = (6, 9)\<rparr>),
      (''steps'', \<lparr>optimal = (8000, 12000), normal = (5000, 15000)\<rparr>),
      (''bmi'', \<lparr>optimal = (185 / 10, 24), normal = (185 / 10, 28)\<rparr>)]"

text \<open>
  The body of \<open>calculate_metric_score\<close> once the bands of the metric are known: the
  three cases of the source in their order, each division checked.
\<close>

definition score_in_bands :: "real \<Rightarrow> bands \<Rightarrow> py_error + real" where
  "score_in_bands v b =
     (if fst (optimal b) \<le> v \<and> v \<le> snd (optimal b) then Inr 95
      else if fst (normal b) \<le> v \<and> v \<le> snd (normal b) then
        bind_r (if v < fst (optimal b)
                then py_truediv (v - fst (normal b)) (fst (optimal b) - fst (normal b))
                else py_truediv (snd (normal b) - v) (snd (normal b) - snd (optimal b)))
          (\<lambda>ratio. Inr (70 + ratio * 20))
      else
        bind_r (if v < fst (normal b)
                then bind_r (py_truediv v (fst (normal b))) (\<lambda>q. Inr (max 0 q))
                else bind_r (py_truediv (v - snd (normal b)) (snd (normal b)))
                       (\<lambda>q. Inr (max 0 (1 - q))))
          (\<lambda>ratio. Inr (ratio * 70)))"

definition calculate_metric_score :: "real \<Rightarrow> string \<Rightarrow> py_error + real" where
  "calculate_metric_score v metric_type =
     (case ranges metric_type of
        None \<Rightarrow> Inr 70
      | Some b \<Rightarrow> score_in_bands v b)"

text \<open>
  The state of \<open>calculate_overall_score\<close> while it walks through the categories:
  \<open>category_scores\<close> (in insertion order), \<open>weighted_sum\<close> and \<open>total_weight\<close>.
\<close>

record score_state =
  category_scores :: "(string \<times> int) list"
  weighted_sum :: real
  total_weight :: real



text \<open>The result dictionary of \<open>calculate_overall_score\<close>, without the summary sentence.\<close>

record OverallScore =
  overall_score :: int
  os_category_scores :: "(string \<times> int) list"
  level :: string

definition score_level :: "int \<Rightarrow> string" where
  "score_level s =
     (if s \<ge> 90 then ''excellent'' else if s \<ge> 75 then ''good''
      else if s \<ge> 60 then ''fair'' else ''poor'')"




text \<open>The heart rate row of the band table.\<close>

definition heart_rate_bands :: bands where
  "heart_rate_bands = \<lparr>optimal = (60, 80), normal = (50, 100)\<rparr>"


text \<open>
  The score a metric value gets, as a number: \<open>calculate_metric_score\<close> never raises
  (lemma \<open>calculate_metric_score_total\<close>), so the second case is never taken.
\<close>

definition the_score :: "real \<Rightarrow> string \<Rightarrow> real" where
  "the_score v m = (case calculate_metric_score v m of Inr s \<Rightarrow> s | Inl e \<Rightarrow> 0)"



definition wsum :: "(real \<times> real) list \<Rightarrow> real" where
  "wsum ps = sum_list (map (\<lambda>(w, s). s * w) ps)"

definition wtotal :: "(real \<times> real) list \<Rightarrow> real" where
  "wtotal ps = sum_list (map fst ps)"

definition weighted_average :: "(real \<times> real) list \<Rightarrow> real" where
  "weighted_average ps = wsum ps / wtotal ps"

text \<open>A heart rate of 70 alone.\<close>

definition only_heart_rate :: "string \<Rightarrow> real option" where
  "only_heart_rate = [''heart_rate'' \<mapsto> 70]"


section \<open>Health score in double arithmetic\<close>

text \<open>
  The overall score is an integer obtained by truncating a quotient, so the last bit of
  the quotient decides it. For the statements about the overall score the functions of
  \<open>HealthScoreCalculator\<close> are therefore modelled a second time, operation by
  operation in double arithmetic (suffix \<open>_fl\<close>). The band table and the weights are
  the literals of the source, rounded to doubles: \<open>double_bands\<close> rounds the four edges
  of a row.
\<close>

definition double_bands :: "bands \<Rightarrow> bands" where
  "double_bands b =
     \<lparr>optimal = (fl (fst (optimal b)), fl (snd (optimal b))),
      normal = (fl (fst (normal b)), fl (snd (normal b)))\<rparr>"

definition score_in_bands_fl :: "real \<Rightarrow> bands \<Rightarrow> py_error + real" where
  "score_in_bands_fl v b =
     (if fst (optimal b) \<le> v \<and> v \<le> snd (optimal b) then Inr 95
      else if fst (normal b) \<le> v \<and> v \<le> snd (normal b) then
        bind_r (if v < fst (optimal b)
                then f_truediv (f_sub v (fst (normal b))) (f_sub (fst (optimal b)) (fst (normal b)))
                else f_truediv (f_sub (snd (normal b)) v) (f_sub (snd (normal b)) (snd (optimal b))))
          (\<lambda>ratio. Inr (f_add 70 (f_mul ratio 20)))
      else
        bind_r (if v < fst (normal b)
                then bind_r (f_truediv v (fst (normal b))) (\<lambda>q. Inr (max 0 q))
                else bind_r (f_truediv (f_sub v (snd (normal b))) (snd (normal b)))
                       (\<lambda>q. Inr (max 0 (f_sub 1 q))))
          (\<lambda>ratio. Inr (f_mul ratio 70)))"

definition calculate_metric_score_fl :: "real \<Rightarrow> string \<Rightarrow> py_error + real" where
  "calculate_metric_score_fl v metric_type =
     (case ranges metric_type of
        None \<Rightarrow> Inr 70
      | Some b \<Rightarrow> score_in_bands_fl v (double_bands b))"

definition add_category_fl ::
    "(string \<Rightarrow> real option) \<Rightarrow> string \<Rightarrow> string \<Rightarrow> real \<Rightarrow> score_state
      \<Rightarrow> py_error + score_state" where
  "add_category_fl metrics key category w st =
     (case metrics key of
        None \<Rightarrow> Inr st
      | Some v \<Rightarrow>
          bind_r (calculate_metric_score_fl v key) (\<lambda>score.
            Inr \<lparr>category_scores = category_scores st @ [(category, py_round score)],
                 weighted_sum = f_add (weighted_sum st) (f_mul score w),
                 total_weight = f_add (total_weight st) w\<rparr>))"

definition add_blood_pressure_fl ::
    "(string \<Rightarrow> real option) \<Rightarrow> score_state \<Rightarrow> py_error + score_state" where
  "add_blood_pressure_fl metrics st =
     (case (metrics ''blood_pressure_sys'', metrics ''blood_pressure_dia'') of
        (Some sys, Some dia) \<Rightarrow>
          bind_r (calculate_metric_score_fl sys ''blood_pressure_sys'') (\<lambda>sys_score.
          bind_r (calculate_metric_score_fl dia ''blood_pressure_dia'') (\<lambda>dia_score.
            let bp_score = f_div (f_add sys_score dia_score) 2
            in Inr \<lparr>category_scores = category_scores st @ [(''blood_pressure'', py_round bp_score)],
                    weighted_sum
                      = f_add (weighted_sum st) (f_mul bp_score (fl (w_blood_pressure WEIGHTS))),
                    total_weight = f_add (total_weight st) (fl (w_blood_pressure WEIGHTS))\<rparr>))
      | _ \<Rightarrow> Inr st)"

definition finish_overall_score_fl :: "score_state \<Rightarrow> py_error + OverallScore" where
  "finish_overall_score_fl st =
     bind_r (if total_weight st > 0
             then bind_r (f_truediv (weighted_sum st) (total_weight st)) (\<lambda>q. Inr (py_int q))
             else Inr 70)
       (\<lambda>s. Inr \<lparr>overall_score = s, os_category_scores = category_scores st,
                  level = score_level s\<rparr>)"

definition calculate_overall_score_fl :: "(string \<Rightarrow> real option) \<Rightarrow> py_error + OverallScore" where
  "calculate_overall_score_fl metrics =
     bind_r (add_category_fl metrics ''heart_rate'' ''heart_rate'' (fl (w_heart_rate WEIGHTS))
               \<lparr>category_scores = [], weighted_sum = 0, total_weight = 0\<rparr>) (\<lambda>st.
     bind_r (add_blood_pressure_fl metrics st) (\<lambda>st.
     bind_r (add_category_fl metrics ''blood_sugar'' ''blood_sugar'' (fl (w_blood_sugar WEIGHTS)) st) (\<lambda>st.
     bind_r (add_category_fl metrics ''sleep_duration'' ''sleep'' (fl (w_sleep WEIGHTS)) st) (\<lambda>st.
     bind_r (add_category_fl metrics ''steps'' ''activity'' (fl (w_activity WEIGHTS)) st) (\<lambda>st.
     bind_r (add_category_fl metrics ''spo2'' ''spo2'' (fl (w_spo2 WEIGHTS)) st) (\<lambda>st.
     bind_r (add_category_fl metrics ''bmi'' ''weight'' (fl (w_weight WEIGHTS)) st)
       finish_overall_score_fl))))))"

text \<open>
  The score a metric value gets in double arithmetic, as a number
  (\<open>calculate_metric_score_fl\<close> never raises, lemma \<open>calculate_metric_score_fl_total\<close>).
\<close>

definition the_score_fl :: "real \<Rightarrow> string \<Rightarrow> real" where
  "the_score_fl v m = (case calculate_metric_score_fl v m of Inr s \<Rightarrow> s | Inl e \<Rightarrow> 0)"

text \<open>
  The categories present in the input, as the specification lists them, each with its
  weight and its score, both doubles; absent categories contribute no entry. The blood
  pressure category is present when both of its readings are.
\<close>

definition cat_entry_fl :: "(string \<Rightarrow> real option) \<Rightarrow> string \<Rightarrow> real \<Rightarrow> (real \<times> real) list" where
  "cat_entry_fl metrics key w =
     (case metrics key of None \<Rightarrow> [] | Some v \<Rightarrow> [(fl w, the_score_fl v key)])"

definition bp_entry_fl :: "(string \<Rightarrow> real option) \<Rightarrow> (real \<times> real) list" where
  "bp_entry_fl metrics =
     (case (metrics ''blood_pressure_sys'', metrics ''blood_pressure_dia'') of
        (Some sys, Some dia) \<Rightarrow>
          [(fl (20 / 100),
            f_div (f_add (the_score_fl sys ''blood_pressure_sys'')
                         (the_score_fl dia ''blood_pressure_dia'')) 2)]
      | _ \<Rightarrow> [])"

definition present_categories_fl :: "(string \<Rightarrow> real option) \<Rightarrow> (real \<times> real) list" where
  "present_categories_fl metrics =
     cat_entry_fl metrics ''heart_rate'' (15 / 100) @ bp_entry_fl metrics
     @ cat_entry_fl metrics ''blood_sugar'' (15 / 100)
     @ cat_entry_fl metrics ''sleep_duration'' (15 / 100)
     @ cat_entry_fl metrics ''steps'' (15 / 100) @ cat_entry_fl metrics ''spo2'' (10 / 100)
     @ cat_entry_fl metrics ''bmi'' (10 / 100)"

text \<open>
  The two sums over a list of (weight, score) entries, accumulated from the left in
  double arithmetic, starting from 0.
\<close>

definition float_wsum_from :: "real \<Rightarrow> (real \<times> real) list \<Rightarrow> real" where
  "float_wsum_from a ps = foldl (\<lambda>acc (w, s). f_add acc (f_mul s w)) a ps"

definition float_wtotal_from :: "real \<Rightarrow> (real \<times> real) list \<Rightarrow> real" where
  "float_wtotal_from a ps = foldl (\<lambda>acc (w, s). f_add acc w) a ps"

definition float_wsum :: "(real \<times> real) list \<Rightarrow> real" where
  "float_wsum ps = float_wsum_from 0 ps"

definition float_wtotal :: "(real \<times> real) list \<Rightarrow> real" where
  "float_wtotal ps = float_wtotal_from 0 ps"

text \<open>
  An oxygen saturation of 95 alone; 5500 steps with 4 hours of sleep.
\<close>

definition only_spo2 :: "string \<Rightarrow> real option" where
  "only_spo2 = [''spo2'' \<mapsto> 95]"

definition steps_and_sleep :: "string \<Rightarrow> real option" where
  "steps_and_sleep = [''steps'' \<mapsto> 5500, ''sleep_duration'' \<mapsto> 4]"


section \<open>Trend analysis (trend_analysis.py, TrendAnalyzer)\<close>

text \<open>
  The loop \<open>for i in range(n): result.append(f(i))\<close>, stopping at the first exception.
\<close>

fun append_loop :: "(nat \<Rightarrow> py_error + 'a) \<Rightarrow> nat list \<Rightarrow> py_error + 'a list" where
  "append_loop f [] = Inr []"
| "append_loop f (i # rest) =
     (case f i of
        Inl e \<Rightarrow> Inl e
      | Inr v \<Rightarrow> (case append_loop f rest of Inl e \<Rightarrow> Inl e | Inr vs \<Rightarrow> Inr (v # vs)))"

text \<open>
  One iteration of the loop of \<open>calculate_moving_average\<close>. In the second branch
  \<open>i - window + 1\<close> is not negative, so the slice bounds are natural numbers.
\<close>

definition moving_average_at :: "real list \<Rightarrow> int \<Rightarrow> nat \<Rightarrow> py_error + real" where
  "moving_average_at data window i =
     (if int i < window - 1
      then py_truediv (sum_list (py_slice data 0 (i + 1))) (real (i + 1))
      else py_truediv (sum_list (py_slice data (nat (int i - window + 1)) (i + 1)))
             (real_of_int window))"

definition calculate_moving_average :: "real list \<Rightarrow> int \<Rightarrow> py_error + real list" where
  "calculate_moving_average data window =
     (if int (length data) < window then Inr data
      else append_loop (moving_average_at data window) [0..<length data])"








section \<open>Anomaly detection (trend_analysis.py, AnomalyDetector)\<close>

text \<open>
  An entry of \<open>MEDICAL_THRESHOLDS\<close>: four limits and a unit, or (for the weight) a
  weekly change threshold and a unit.
\<close>

datatype threshold_entry =
  Limits (t_critical_low: real) (t_low: real) (t_high: real) (t_critical_high: real) string
  | Change real string

fun t_unit :: "threshold_entry \<Rightarrow> string" where
  "t_unit (Limits cl l h ch u) = u"
| "t_unit (Change c u) = u"

definition MEDICAL_THRESHOLDS :: "string \<Rightarrow> threshold_entry option" where
  "MEDICAL_THRESHOLDS = map_of
     [(''heart_rate'', Limits 40 50 100 120 ''bpm''),
      (''blood_pressure_sys'', Limits 80 90 140 180 ''mmHg''),
      (''blood_pressure_dia'', Limits 50 60 90 120 ''mmHg''),
      (''blood_sugar'', Limits 3 (39 / 10) (61 / 10) (111 / 10) ''mmol/L''),
      (''spo2'', Limits 90 94 100 100 ''%''),
      (''weight'', Change 2 ''kg'')]"

record zscore_anomaly =
  za_index :: nat
  za_value :: real
  za_zscore :: real
  za_type :: string

text \<open>The loop of \<open>detect_zscore\<close> over \<open>enumerate(data)\<close>.\<close>

fun zscore_loop :: "real \<Rightarrow> real \<Rightarrow> real \<Rightarrow> (nat \<times> real) list \<Rightarrow> py_error + zscore_anomaly list" where
  "zscore_loop mean std threshold [] = Inr []"
| "zscore_loop mean std threshold ((i, v) # rest) =
     (case py_truediv (v - mean) std of
        Inl e \<Rightarrow> Inl e
      | Inr zscore \<Rightarrow>
          (case zscore_loop mean std threshold rest of
             Inl e \<Rightarrow> Inl e
           | Inr anomalies \<Rightarrow>
               Inr (if \<bar>zscore\<bar> > threshold
                    then \<lparr>za_index = i, za_value = v, za_zscore = py_round_nd zscore 2,
                          za_type = (if zscore > 0 then ''high'' else ''low'')\<rparr> # anomalies
                    else anomalies)))"

text \<open>
  \<open>detect_zscore\<close> after its length guard: population mean and variance, the standard
  deviation with its floor of 1, and the loop.
\<close>

definition zscore_body :: "real list \<Rightarrow> real \<Rightarrow> py_error + zscore_anomaly list" where
  "zscore_body data threshold =
     bind_r (py_truediv (sum_list data) (real (length data))) (\<lambda>mean.
     bind_r (py_truediv (sum_list (map (\<lambda>x. (x - mean)\<^sup>2) data)) (real (length data)))
       (\<lambda>variance.
          let std = (if variance > 0 then sqrt variance else 1)
          in zscore_loop mean std threshold (enumerate_py data)))"


record iqr_anomaly =
  ia_index :: nat
  ia_value :: real
  ia_lower_bound :: real
  ia_upper_bound :: real
  ia_type :: string

text \<open>
  \<open>detect_iqr\<close> decides by strict comparisons with the two bounds it computes, so the
  last bit of a bound matters: the function is modelled in double arithmetic. The loop
  over \<open>enumerate(data)\<close> first.
\<close>

fun iqr_loop :: "real \<Rightarrow> real \<Rightarrow> (nat \<times> real) list \<Rightarrow> iqr_anomaly list" where
  "iqr_loop lower_bound upper_bound [] = []"
| "iqr_loop lower_bound upper_bound ((i, v) # rest) =
     (if v < lower_bound \<or> v > upper_bound
      then \<lparr>ia_index = i, ia_value = v,
            ia_lower_bound = float_round lower_bound 1,
            ia_upper_bound = float_round upper_bound 1,
            ia_type = (if v > upper_bound then ''high'' else ''low'')\<rparr>
           # iqr_loop lower_bound upper_bound rest
      else iqr_loop lower_bound upper_bound rest)"

definition detect_iqr :: "real list \<Rightarrow> real \<Rightarrow> py_error + iqr_anomaly list" where
  "detect_iqr data multiplier =
     (if length data < 4 then Inr []
      else
        let sorted_data = sort data;
            n = length sorted_data
        in bind_r (py_index sorted_data (int (n div 4))) (\<lambda>q1.
           bind_r (py_index sorted_data (int (3 * n div 4))) (\<lambda>q3.
             let iqr = f_sub q3 q1;
                 lower_bound = f_sub q1 (f_mul multiplier iqr);
                 upper_bound = f_add q3 (f_mul multiplier iqr)
             in Inr (iqr_loop lower_bound upper_bound (enumerate_py data)))))"

text \<open>
  The message of a finding is a templated text; the model keeps the template and the
  threshold it quotes. \<open>Statistical_Outlier\<close> is the fixed text of \<open>analyze_data\<close> for a
  statistical anomaly without a medical finding.
\<close>

datatype message_text =
  No_Message
  | Severely_Low real
  | Low real
  | Severely_High real
  | High real
  | Statistical_Outlier

text \<open>
  The dictionary \<open>detect_medical_anomaly\<close> builds; the key \<open>type\<close> is only set together
  with a severity other than normal.
\<close>

record medical_anomaly =
  ma_value :: real
  ma_metric_type :: string
  ma_unit :: string
  ma_severity :: string
  ma_type :: "string option"
  ma_message :: message_text

definition detect_medical_anomaly :: "real \<Rightarrow> string \<Rightarrow> medical_anomaly option" where
  "detect_medical_anomaly v metric_type =
     (case MEDICAL_THRESHOLDS metric_type of
        None \<Rightarrow> None
      | Some thresholds \<Rightarrow>
          let result = \<lparr>ma_value = v, ma_metric_type = metric_type,
                         ma_unit = t_unit thresholds, ma_severity = ''normal'',
                         ma_type = None, ma_message = No_Message\<rparr>;
              result =
                (case thresholds of
                   Limits critical_low low high critical_high u \<Rightarrow>
                     if v \<le> critical_low
                     then result\<lparr>ma_severity := ''critical'', ma_type := Some ''low'',
                                 ma_message := Severely_Low critical_low\<rparr>
                     else if v \<le> low
                     then result\<lparr>ma_severity := ''warning'', ma_type := Some ''low'',
                                 ma_message := Low low\<rparr>
                     else if v \<ge> critical_high
                     then result\<lparr>ma_severity := ''critical'', ma_type := Some ''high'',
                                 ma_message := Severely_High critical_high\<rparr>
                     else if v \<ge> high
                     then result\<lparr>ma_severity := ''warning'', ma_type := Some ''high'',
                                 ma_message := High high\<rparr>
                     else result
                 | Change c u \<Rightarrow> result)
          in if ma_severity result = ''normal'' then None else Some result)"

record anomaly =
  an_index :: nat
  an_value :: real
  an_date :: "string option"
  an_severity :: string
  an_message :: message_text

text \<open>
  The result dictionary of \<open>analyze_data\<close>, without the summary sentence (a rendering
  of the other fields).
\<close>

record AnomalyReport =
  has_anomaly :: bool
  anomaly_count :: nat
  anomalies :: "anomaly list"
  latest_status :: "medical_anomaly option"




section \<open>Reference definitions: blood pressure category\<close>



section \<open>Reference definitions: moving average\<close>

text \<open>
  The moving average as the specification words it: below index \<open>window - 1\<close> the mean
  of the elements at 0..i, from there on the mean of the \<open>window\<close> elements ending at i.
\<close>

definition spec_moving_average :: "real list \<Rightarrow> nat \<Rightarrow> nat \<Rightarrow> real" where
  "spec_moving_average data window i =
     (if i < window - 1
      then sum_list (map (\<lambda>j. data ! j) [0..<i + 1]) / real (i + 1)
      else sum_list (map (\<lambda>j. data ! j) [i + 1 - window..<i + 1]) / real window)"


section \<open>Reference definitions: IQR detector\<close>

text \<open>
  The two bounds in the words of the specification: the quartiles are the elements of
  the sorted data at the integer indices n div 4 and 3n div 4, and the bounds are
  \<open>q1 - multiplier * iqr\<close> and \<open>q3 + multiplier * iqr\<close> as doubles.
\<close>

definition iqr_bounds :: "real list \<Rightarrow> real \<Rightarrow> real \<times> real" where
  "iqr_bounds data multiplier =
     (let s = sort data; n = length data;
          q1 = s ! (n div 4); q3 = s ! (3 * n div 4)
      in (f_sub q1 (f_mul multiplier (f_sub q3 q1)), f_add q3 (f_mul multiplier (f_sub q3 q1))))"

text \<open>The record \<open>detect_iqr\<close> builds for the value at index i.\<close>

definition iqr_flag :: "real list \<Rightarrow> real \<Rightarrow> real \<Rightarrow> nat \<Rightarrow> iqr_anomaly" where
  "iqr_flag data lower_bound upper_bound i =
     \<lparr>ia_index = i, ia_value = data ! i,
      ia_lower_bound = float_round lower_bound 1,
      ia_upper_bound = float_round upper_bound 1,
      ia_type = (if data ! i > upper_bound then ''high'' else ''low'')\<rparr>"

definition iqr_example :: "real list" where
  "iqr_example = [10, 11, 9, 10, 12, 11, 100]"

text \<open>
  The readings 3.0, 0.0, 2.5 and 1.8. The double 1.8 lies slightly above the decimal, and
  the lower bound comes out as \<open>2 powi - 52\<close> instead of 0.
\<close>

definition iqr_rounding_example :: "real list" where
  "iqr_rounding_example = [3, 0, 5 / 2, fl (18 / 10)]"


section \<open>Reference definitions: Z-score statistics\<close>








section \<open>Cardiovascular risk, Framingham (cardiovascular.py)\<close>

text \<open>
  The calculator works with \<open>math.log\<close>, \<open>math.exp\<close> and \<open>math.pow\<close>, which the
  platform library does not round correctly, so its formula is read in exact arithmetic:
  they are the real functions \<open>ln\<close>, \<open>exp\<close> and \<open>powr\<close>. The validation of the input
  keeps every argument of \<open>ln\<close> positive, and a power of a base between 0 and 1 with a
  positive exponent cannot overflow (an underflow gives 0 without an exception).

  \<open>math.exp\<close> raises \<open>OverflowError\<close> when its result exceeds the largest double. The
  largest double on which it still returns is 709.782712893384, which is
  \<open>6243314768165359 / 2 ^ 43\<close>.
\<close>

definition math_exp :: "real \<Rightarrow> py_error + real" where
  "math_exp x = (if 6243314768165359 / 2 ^ 43 < x then Inl OverflowError else Inr (exp x))"

record CardiovascularRiskInput =
  cv_age :: int
  cv_gender :: string
  cv_total_cholesterol :: real
  cv_hdl_cholesterol :: real
  cv_systolic_bp :: real
  cv_on_bp_medication :: bool
  cv_is_smoker :: bool
  cv_has_diabetes :: bool

text \<open>
  A coefficient dictionary (\<open>MALE_COEFFICIENTS\<close>, \<open>FEMALE_COEFFICIENTS\<close>): nine literal
  keys, read at literal keys only.
\<close>

record coefficient_table =
  c_ln_age :: real
  c_ln_total_chol :: real
  c_ln_hdl :: real
  c_ln_sbp_untreated :: real
  c_ln_sbp_treated :: real
  c_smoker :: real
  c_diabetes :: real
  c_baseline_survival :: real
  c_mean_coefficient_sum :: real

definition MALE_COEFFICIENTS :: coefficient_table where
  "MALE_COEFFICIENTS =
     \<lparr>c_ln_age = 306117 / 100000, c_ln_total_chol = 112370 / 100000,
      c_ln_hdl = - (93263 / 100000), c_ln_sbp_untreated = 193303 / 100000,
      c_ln_sbp_treated = 199881 / 100000, c_smoker = 65451 / 100000,
      c_diabetes = 57367 / 100000, c_baseline_survival = 88936 / 100000,
      c_mean_coefficient_sum = 239802 / 10000\<rparr>"

definition FEMALE_COEFFICIENTS :: coefficient_table where
  "FEMALE_COEFFICIENTS =
     \<lparr>c_ln_age = 232888 / 100000, c_ln_total_chol = 120904 / 100000,
      c_ln_hdl = - (70833 / 100000), c_ln_sbp_untreated = 276157 / 100000,
      c_ln_sbp_treated = 282263 / 100000, c_smoker = 52873 / 100000,
      c_diabetes = 69154 / 100000, c_baseline_survival = 95012 / 100000,
      c_mean_coefficient_sum = 261931 / 10000\<rparr>"

definition validate_input :: "CardiovascularRiskInput \<Rightarrow> bool" where
  "validate_input d =
     (if cv_age d < 30 \<or> cv_age d > 79 then False
      else if cv_gender d \<notin> set [gender_male, gender_female] then False
      else if cv_total_cholesterol d \<le> 0 \<or> cv_hdl_cholesterol d \<le> 0 then False
      else if cv_systolic_bp d \<le> 0 then False
      else True)"

definition framingham_get_risk_level :: "real \<Rightarrow> string" where
  "framingham_get_risk_level risk_percentage =
     (if risk_percentage < 10 then ''low''
      else if risk_percentage < 20 then ''medium''
      else ''high'')"

text \<open>
  The result dictionary of \<open>FraminghamRiskCalculator.calculate\<close>: the three computed
  fields and, of \<open>details\<close>, the rounded coefficient sum (absent from the default
  result). The \<open>factors\<close> and \<open>recommendations\<close> texts are left out.
\<close>

record FraminghamResult =
  cv_risk_percentage :: real
  cv_risk_level :: string
  cv_score :: int
  cv_coefficient_sum :: "real option"

definition get_default_result :: FraminghamResult where
  "get_default_result =
     \<lparr>cv_risk_percentage = 0, cv_risk_level = ''unknown'', cv_score = 0,
      cv_coefficient_sum = None\<rparr>"

definition framingham_calculate :: "CardiovascularRiskInput \<Rightarrow> py_error + FraminghamResult" where
  "framingham_calculate input_data =
     (if \<not> validate_input input_data then Inr get_default_result
      else
        let is_male = (cv_gender input_data = gender_male);
            coef = (if is_male then MALE_COEFFICIENTS else FEMALE_COEFFICIENTS);
            ln_age = ln (real_of_int (cv_age input_data));
            ln_total_chol = ln (cv_total_cholesterol input_data);
            ln_hdl = ln (cv_hdl_cholesterol input_data);
            ln_sbp = ln (cv_systolic_bp input_data);
            coefficient_sum =
              c_ln_age coef * ln_age
              + c_ln_total_chol coef * ln_total_chol
              + c_ln_hdl coef * ln_hdl
              + (if cv_on_bp_medication input_data then c_ln_sbp_treated coef
                 else c_ln_sbp_untreated coef) * ln_sbp
              + (if cv_is_smoker input_data then c_smoker coef else 0)
              + (if cv_has_diabetes input_data then c_diabetes coef else 0)
        in bind_r (math_exp (coefficient_sum - c_mean_coefficient_sum coef)) (\<lambda>hazard.
             let risk = 1 - c_baseline_survival coef powr hazard;
                 risk_percentage = py_round_nd (risk * 100) 1;
                 risk_level = framingham_get_risk_level risk_percentage;
                 score = min 100 (py_int (risk_percentage * 3))
             in Inr \<lparr>cv_risk_percentage = risk_percentage, cv_risk_level = risk_level,
                     cv_score = score,
                     cv_coefficient_sum = Some (py_round_nd coefficient_sum 4)\<rparr>))"

text \<open>
  The formula in the words of the specification: the sex-specific table, the sum of
  coefficient times logarithm with the treated blood pressure coefficient exactly under
  medication, and the risk \<open>1 - baseline_survival ^ exp(sum - mean)\<close>.
\<close>

definition spec_table :: "CardiovascularRiskInput \<Rightarrow> coefficient_table" where
  "spec_table d = (if cv_gender d = gender_male then MALE_COEFFICIENTS else FEMALE_COEFFICIENTS)"

definition spec_coefficient_sum :: "CardiovascularRiskInput \<Rightarrow> real" where
  "spec_coefficient_sum d =
     c_ln_age (spec_table d) * ln (real_of_int (cv_age d))
     + c_ln_total_chol (spec_table d) * ln (cv_total_cholesterol d)
     + c_ln_hdl (spec_table d) * ln (cv_hdl_cholesterol d)
     + (if cv_on_bp_medication d then c_ln_sbp_treated (spec_table d)
        else c_ln_sbp_untreated (spec_table d)) * ln (cv_systolic_bp d)
     + (if cv_is_smoker d then c_smoker (spec_table d) else 0)
     + (if cv_has_diabetes d then c_diabetes (spec_table d) else 0)"

definition spec_exponent :: "CardiovascularRiskInput \<Rightarrow> real" where
  "spec_exponent d = spec_coefficient_sum d - c_mean_coefficient_sum (spec_table d)"

definition spec_risk :: "CardiovascularRiskInput \<Rightarrow> real" where
  "spec_risk d = 1 - c_baseline_survival (spec_table d) powr exp (spec_exponent d)"

text \<open>The score as the specification words it, \<open>min(100, round(risk_pct * 3))\<close>.\<close>

definition spec_framingham_score :: "real \<Rightarrow> int" where
  "spec_framingham_score risk_pct = min 100 (py_round (risk_pct * 3))"

text \<open>
  A woman of 32 with total cholesterol 128, HDL 32 and systolic pressure 64, no
  medication, not smoking, no diabetes. All four measurements are powers of two.
\<close>

definition cv_example :: CardiovascularRiskInput where
  "cv_example =
     \<lparr>cv_age = 32, cv_gender = gender_female, cv_total_cholesterol = 128,
      cv_hdl_cholesterol = 32, cv_systolic_bp = 64, cv_on_bp_medication = False,
      cv_is_smoker = False, cv_has_diabetes = False\<rparr>"

text \<open>
  A man of 32 whose total cholesterol is recorded as \<open>2 ^ 1000\<close> (a double, about
  \<open>1.07e301\<close>), with HDL 1 and systolic pressure 64: the input passes the validation
  and the exponent is about 773.
\<close>

definition cv_overflow_example :: CardiovascularRiskInput where
  "cv_overflow_example =
     \<lparr>cv_age = 32, cv_gender = gender_male, cv_total_cholesterol = 2 ^ 1000,
      cv_hdl_cholesterol = 1, cv_systolic_bp = 64, cv_on_bp_medication = False,
      cv_is_smoker = False, cv_has_diabetes = False\<rparr>"


section \<open>Results about the metabolic syndrome calculator\<close>

lemma gender_male_neq_female: "gender_male \<noteq> gender_female"
  by (simp add: gender_male_def gender_female_def)

lemma metabolic_criteria_met_eq:
  "ms_criteria_met (metabolic_calculate d) = count_true (spec_criteria d)"
  by (simp add: metabolic_calculate_def Let_def spec_criteria_def count_true_def
      dict_get_def WAIST_THRESHOLD_def HDL_THRESHOLD_def gender_male_neq_female)

lemma count_true_spec_criteria_range:
  "0 \<le> count_true (spec_criteria d) \<and> count_true (spec_criteria d) \<le> 5"
  by (simp add: spec_criteria_def count_true_def)

text \<open>
  Claim C3. For every input, \<open>criteria_met\<close> is the number of the five criteria that
  hold (each one: measured abnormal, or under the matching treatment), the syndrome flag
  is set exactly when at least three hold, the score is twenty times the count, and the
  risk level is low for 0, medium for 1 and 2, high from 3 on.
\<close>

theorem metabolic_calculate_contract:
  "ms_criteria_met (metabolic_calculate d) = count_true (spec_criteria d)
   \<and> 0 \<le> ms_criteria_met (metabolic_calculate d)
   \<and> ms_criteria_met (metabolic_calculate d) \<le> 5
   \<and> ms_has_metabolic_syndrome (metabolic_calculate d)
       = (3 \<le> ms_criteria_met (metabolic_calculate d))
   \<and> ms_score (metabolic_calculate d) = ms_criteria_met (metabolic_calculate d) * 20
   \<and> ms_risk_level (metabolic_calculate d)
       = (if ms_criteria_met (metabolic_calculate d) = 0 then ''low''
          else if ms_criteria_met (metabolic_calculate d) \<in> {1, 2} then ''medium''
          else ''high'')"
proof -
  have cm: "ms_criteria_met (metabolic_calculate d) = count_true (spec_criteria d)"
    by (rule metabolic_criteria_met_eq)
  have rng: "0 \<le> count_true (spec_criteria d)" "count_true (spec_criteria d) \<le> 5"
    using count_true_spec_criteria_range [of d] by simp_all
  have flag: "ms_has_metabolic_syndrome (metabolic_calculate d)
      = (3 \<le> ms_criteria_met (metabolic_calculate d))"
    by (simp add: metabolic_calculate_def Let_def)
  have sc: "ms_score (metabolic_calculate d) = ms_criteria_met (metabolic_calculate d) * 20"
    by (simp add: metabolic_calculate_def Let_def)
  have lv: "ms_risk_level (metabolic_calculate d)
      = metabolic_get_risk_level (ms_criteria_met (metabolic_calculate d))"
    by (simp add: metabolic_calculate_def Let_def)
  have tier: "metabolic_get_risk_level n
      = (if n = 0 then ''low'' else if n \<in> {1, 2} then ''medium'' else ''high'')"
    if "0 \<le> n" for n :: int
    using that by (auto simp: metabolic_get_risk_level_def)
  show ?thesis
    using cm rng flag sc lv tier [of "count_true (spec_criteria d)"] by simp
qed

theorem metabolic_calculate_contract_witness:
  "ms_criteria_met (metabolic_calculate metabolic_example) = 3
   \<and> ms_has_metabolic_syndrome (metabolic_calculate metabolic_example)
   \<and> ms_score (metabolic_calculate metabolic_example) = 60
   \<and> ms_risk_level (metabolic_calculate metabolic_example) = ''high''"
proof -
  have "count_true (spec_criteria metabolic_example) = 3"
    by (simp add: spec_criteria_def count_true_def metabolic_example_def
        gender_male_neq_female)
  then show ?thesis
    using metabolic_calculate_contract [of metabolic_example] by simp
qed

section \<open>Results about the FINDRISC calculator\<close>

lemma py_int_of_int_div:
  assumes "0 \<le> a" and "0 < b"
  shows "py_int (real_of_int a / real_of_int b) = a div b"
  using assms by (simp add: py_int_def floor_divide_of_int_eq)

lemma findrisc_total_score_eq:
  "fr_total_score (findrisc_calculate d) =
     score_age (d_age d) + score_bmi (d_bmi d) + score_waist (d_waist d) (d_gender d)
     + (if d_daily_physical_activity d then 0 else 2)
     + (if d_daily_fruit_vegetable d then 0 else 1)
     + (if d_on_bp_medication d then 2 else 0)
     + (if d_history_high_glucose d then 5 else 0)
     + score_family_history (d_family_diabetes d)"
  by (simp add: findrisc_calculate_def Let_def case_prod_beta split del: if_split)

lemma findrisc_breakdown_scores:
  "map snd (fr_score_breakdown (findrisc_calculate d)) =
     [score_age (d_age d), score_bmi (d_bmi d), score_waist (d_waist d) (d_gender d),
      (if d_daily_physical_activity d then 0 else 2),
      (if d_daily_fruit_vegetable d then 0 else 1),
      (if d_on_bp_medication d then 2 else 0),
      (if d_history_high_glucose d then 5 else 0),
      score_family_history (d_family_diabetes d)]"
  by (simp add: findrisc_calculate_def Let_def case_prod_beta split del: if_split)

lemma findrisc_total_is_sum_of_breakdown:
  "fr_total_score (findrisc_calculate d)
     = sum_list (map snd (fr_score_breakdown (findrisc_calculate d)))"
  by (simp only: findrisc_breakdown_scores findrisc_total_score_eq) simp

lemma score_age_range: "0 \<le> score_age a \<and> score_age a \<le> 4"
  by (simp add: score_age_def)

lemma score_bmi_range: "0 \<le> score_bmi b \<and> score_bmi b \<le> 3"
  by (simp add: score_bmi_def)

lemma score_waist_range: "0 \<le> score_waist w g \<and> score_waist w g \<le> 4"
  by (simp add: score_waist_def)

lemma score_family_history_range:
  "0 \<le> score_family_history f \<and> score_family_history f \<le> 5"
  by (simp add: score_family_history_def)

lemma findrisc_total_score_range:
  "0 \<le> fr_total_score (findrisc_calculate d) \<and> fr_total_score (findrisc_calculate d) \<le> 26"
proof -
  define act :: int where "act = (if d_daily_physical_activity d then 0 else 2)"
  define diet :: int where "diet = (if d_daily_fruit_vegetable d then 0 else 1)"
  define med :: int where "med = (if d_on_bp_medication d then 2 else 0)"
  define glu :: int where "glu = (if d_history_high_glucose d then 5 else 0)"
  have t: "fr_total_score (findrisc_calculate d) =
      score_age (d_age d) + score_bmi (d_bmi d) + score_waist (d_waist d) (d_gender d)
      + act + diet + med + glu + score_family_history (d_family_diabetes d)"
    unfolding act_def diet_def med_def glu_def by (rule findrisc_total_score_eq)
  have "0 \<le> act \<and> act \<le> 2" "0 \<le> diet \<and> diet \<le> 1"
    "0 \<le> med \<and> med \<le> 2" "0 \<le> glu \<and> glu \<le> 5"
    by (simp_all add: act_def diet_def med_def glu_def)
  then show ?thesis
    using score_age_range [of "d_age d"] score_bmi_range [of "d_bmi d"]
      score_waist_range [of "d_waist d" "d_gender d"]
      score_family_history_range [of "d_family_diabetes d"]
    unfolding t by linarith
qed

lemma findrisc_level_of_total:
  "(fr_risk_level (findrisc_calculate d), fr_risk_percentage (findrisc_calculate d))
     = findrisc_get_risk_level (fr_total_score (findrisc_calculate d))"
  by (simp only: findrisc_calculate_def Let_def case_prod_beta FindriscResult.select_convs
      prod.collapse)

lemma findrisc_score_of_total:
  "fr_score (findrisc_calculate d)
     = min 100 (py_int (real_of_int (fr_total_score (findrisc_calculate d) * 100) / 26))"
  by (simp only: findrisc_calculate_def Let_def case_prod_beta FindriscResult.select_convs)

lemma findrisc_norm_div:
  assumes "0 \<le> t" and "t \<le> 26"
  shows "min 100 (py_int (real_of_int (t * 100) / 26)) = (t * 100) div 26"
proof -
  have "py_int (real_of_int (t * 100) / real_of_int 26) = (t * 100) div 26"
    using assms by (intro py_int_of_int_div) simp_all
  moreover have "(t * 100) div 26 \<le> 100"
    using assms by simp
  ultimately show ?thesis by simp
qed

text \<open>
  Claim C2, as stated, fails on the normalised score: the code truncates where the
  claim rounds. For the 50 year old of \<open>findrisc_example\<close> the total is 2, the code
  returns \<open>int(7.69...) = 7\<close> and the claim's formula gives 8.
\<close>

theorem findrisc_score_round_counterexample:
  "fr_total_score (findrisc_calculate findrisc_example) = 2
   \<and> fr_score (findrisc_calculate findrisc_example) = 7
   \<and> spec_findrisc_score (fr_total_score (findrisc_calculate findrisc_example)) = 8"
proof -
  have t: "fr_total_score (findrisc_calculate findrisc_example) = 2"
    by (simp add: findrisc_total_score_eq findrisc_example_def score_age_def score_bmi_def
        score_waist_def score_family_history_def gender_male_neq_female)
  have "fr_score (findrisc_calculate findrisc_example) = 7"
    using findrisc_norm_div [of 2] by (simp add: findrisc_score_of_total t)
  moreover have "\<lfloor>200 / 26 :: real\<rfloor> = 7"
    by (simp add: floor_eq_iff)
  then have "spec_findrisc_score 2 = 8"
    by (simp add: spec_findrisc_score_def py_round_def Let_def)
  ultimately show ?thesis using t by simp
qed

text \<open>
  Claim C2, amended. For every input the total score is the sum of the eight
  sub-scores (age, BMI, waist, inactivity, low vegetable intake, blood pressure
  medication, glucose history, family history), it lies in 0..26, the pair of risk level
  and percentage is (low, 1) below 7, (low, 4) for 7..11, (medium, 17) for 12..14,
  (high, 33) for 15..20 and (high, 50) from 21 on, and the normalised score is
  \<open>total * 100 / 26\<close> truncated to an integer (never above 100).
\<close>

theorem findrisc_calculate_contract:
  "fr_total_score (findrisc_calculate d) =
     score_age (d_age d) + score_bmi (d_bmi d) + score_waist (d_waist d) (d_gender d)
     + (if d_daily_physical_activity d then 0 else 2)
     + (if d_daily_fruit_vegetable d then 0 else 1)
     + (if d_on_bp_medication d then 2 else 0)
     + (if d_history_high_glucose d then 5 else 0)
     + score_family_history (d_family_diabetes d)
   \<and> fr_total_score (findrisc_calculate d)
       = sum_list (map snd (fr_score_breakdown (findrisc_calculate d)))
   \<and> 0 \<le> fr_total_score (findrisc_calculate d)
   \<and> fr_total_score (findrisc_calculate d) \<le> 26
   \<and> (fr_risk_level (findrisc_calculate d), fr_risk_percentage (findrisc_calculate d))
       = (if fr_total_score (findrisc_calculate d) \<le> 6 then (''low'', 1)
          else if fr_total_score (findrisc_calculate d) \<le> 11 then (''low'', 4)
          else if fr_total_score (findrisc_calculate d) \<le> 14 then (''medium'', 17)
          else if fr_total_score (findrisc_calculate d) \<le> 20 then (''high'', 33)
          else (''high'', 50))
   \<and> fr_score (findrisc_calculate d) = (fr_total_score (findrisc_calculate d) * 100) div 26
   \<and> fr_score (findrisc_calculate d) \<le> 100"
proof -
  let ?t = "fr_total_score (findrisc_calculate d)"
  have rng: "0 \<le> ?t" "?t \<le> 26"
    using findrisc_total_score_range [of d] by simp_all
  have sc: "fr_score (findrisc_calculate d) = (?t * 100) div 26"
    using findrisc_norm_div [OF rng] by (simp only: findrisc_score_of_total)
  have "(?t * 100) div 26 \<le> 100"
    using rng by simp
  then have le: "fr_score (findrisc_calculate d) \<le> 100"
    by (simp only: sc)
  have "findrisc_get_risk_level ?t
      = (if ?t \<le> 6 then (''low'', 1) else if ?t \<le> 11 then (''low'', 4)
         else if ?t \<le> 14 then (''medium'', 17) else if ?t \<le> 20 then (''high'', 33)
         else (''high'', 50))"
    unfolding findrisc_get_risk_level_def by simp
  then have lv: "(fr_risk_level (findrisc_calculate d), fr_risk_percentage (findrisc_calculate d))
      = (if ?t \<le> 6 then (''low'', 1) else if ?t \<le> 11 then (''low'', 4)
         else if ?t \<le> 14 then (''medium'', 17) else if ?t \<le> 20 then (''high'', 33)
         else (''high'', 50))"
    by (simp only: findrisc_level_of_total)
  show ?thesis
    by (intro conjI findrisc_total_score_eq findrisc_total_is_sum_of_breakdown rng sc le lv)
qed

theorem findrisc_calculate_contract_witness:
  "fr_total_score (findrisc_calculate findrisc_example) = 2
   \<and> fr_risk_level (findrisc_calculate findrisc_example) = ''low''
   \<and> fr_risk_percentage (findrisc_calculate findrisc_example) = 1
   \<and> fr_score (findrisc_calculate findrisc_example) = 7"
proof -
  have t: "fr_total_score (findrisc_calculate findrisc_example) = 2"
    by (simp add: findrisc_total_score_eq findrisc_example_def score_age_def score_bmi_def
        score_waist_def score_family_history_def gender_male_neq_female)
  show ?thesis
    using findrisc_calculate_contract [of findrisc_example] by (simp add: t)
qed

section \<open>Results about the per-metric health score\<close>

lemma bind_r_Inr [simp]: "bind_r (Inr v) f = f v"
  by (simp add: bind_r_def)

lemma bind_r_Inl [simp]: "bind_r (Inl e) f = Inl e"
  by (simp add: bind_r_def)

lemma py_truediv_Inr: "b \<noteq> 0 \<Longrightarrow> py_truediv a b = Inr (a / b)"
  by (simp add: py_truediv_def)

text \<open>Every row of the band table is ordered, with a positive lower normal edge.\<close>

lemma ranges_table:
  assumes "ranges m = Some b"
  shows "0 < fst (normal b) \<and> fst (normal b) \<le> fst (optimal b)
    \<and> fst (optimal b) \<le> snd (optimal b) \<and> snd (optimal b) \<le> snd (normal b)"
proof -
  from assms have "(m, b) \<in> set
     [(''heart_rate'', \<lparr>optimal = (60, 80), normal = (50, 100)\<rparr>),
      (''blood_pressure_sys'', \<lparr>optimal = (100, 120), normal = (90, 140)\<rparr>),
      (''blood_pressure_dia'', \<lparr>optimal = (60, 80), normal = (60, 90)\<rparr>),
      (''blood_sugar'', \<lparr>optimal = (4, 55 / 10), normal = (39 / 10, 61 / 10)\<rparr>),
      (''spo2'', \<lparr>optimal = (97, 100), normal = (94, 100)\<rparr>),
      (''sleep_duration'', \<lparr>optimal = (7, 8), normal = (6, 9)\<rparr>),
      (''steps'', \<lparr>optimal = (8000, 12000), normal = (5000, 15000)\<rparr>),
      (''bmi'', \<lparr>optimal = (185 / 10, 24), normal = (185 / 10, 28)\<rparr>)]"
    unfolding ranges_def by (rule map_of_SomeD)
  then show ?thesis by auto
qed

lemma score_optimal:
  assumes "fst (optimal b) \<le> v" "v \<le> snd (optimal b)"
  shows "score_in_bands v b = Inr 95"
  using assms by (simp add: score_in_bands_def)

lemma score_normal_low:
  assumes "fst (normal b) \<le> v" "v < fst (optimal b)" "v \<le> snd (normal b)"
  shows "score_in_bands v b
      = Inr (70 + (v - fst (normal b)) / (fst (optimal b) - fst (normal b)) * 20)"
  using assms by (simp add: score_in_bands_def py_truediv_def)

lemma score_normal_high:
  assumes "snd (optimal b) < v" "v \<le> snd (normal b)" "fst (normal b) \<le> v"
    "fst (optimal b) \<le> snd (optimal b)"
  shows "score_in_bands v b
      = Inr (70 + (snd (normal b) - v) / (snd (normal b) - snd (optimal b)) * 20)"
  using assms by (simp add: score_in_bands_def py_truediv_def)

lemma score_below:
  assumes "v < fst (normal b)" "0 < fst (normal b)" "fst (normal b) \<le> fst (optimal b)"
  shows "score_in_bands v b = Inr (max 0 (v / fst (normal b)) * 70)"
  using assms by (simp add: score_in_bands_def py_truediv_def)

lemma score_above:
  assumes "snd (normal b) < v" "0 < fst (normal b)" "fst (normal b) \<le> fst (optimal b)"
    "fst (optimal b) \<le> snd (optimal b)" "snd (optimal b) \<le> snd (normal b)"
  shows "score_in_bands v b = Inr (max 0 (1 - (v - snd (normal b)) / snd (normal b)) * 70)"
  using assms by (simp add: score_in_bands_def py_truediv_def)

lemma interp_unit:
  fixes r :: real
  assumes "0 \<le> r" "r < 1"
  shows "70 \<le> 70 + r * 20 \<and> 70 + r * 20 < 90"
  using assms by linarith

lemma interp_low_range:
  fixes v n0 o0 :: real
  assumes "n0 \<le> v" "v < o0"
  shows "70 \<le> 70 + (v - n0) / (o0 - n0) * 20 \<and> 70 + (v - n0) / (o0 - n0) * 20 < 90"
proof -
  have d: "0 < o0 - n0" using assms by simp
  have "0 \<le> (v - n0) / (o0 - n0)" using assms d by simp
  moreover have "(v - n0) / (o0 - n0) < 1" using assms d by simp
  ultimately show ?thesis by (rule interp_unit)
qed

lemma interp_high_range:
  fixes v n1 o1 :: real
  assumes "o1 < v" "v \<le> n1"
  shows "70 \<le> 70 + (n1 - v) / (n1 - o1) * 20 \<and> 70 + (n1 - v) / (n1 - o1) * 20 < 90"
proof -
  have d: "0 < n1 - o1" using assms by simp
  have "0 \<le> (n1 - v) / (n1 - o1)" using assms d by simp
  moreover have "(n1 - v) / (n1 - o1) < 1" using assms d by simp
  ultimately show ?thesis by (rule interp_unit)
qed

lemma below_range:
  fixes v n0 :: real
  assumes "v < n0" "0 < n0"
  shows "0 \<le> max 0 (v / n0) * 70 \<and> max 0 (v / n0) * 70 < 70"
proof -
  have "v / n0 < 1" using assms by simp
  then have "max 0 (v / n0) < 1" by simp
  moreover have "0 \<le> max 0 (v / n0)" by simp
  ultimately show ?thesis by simp
qed

lemma above_range:
  fixes v n1 :: real
  assumes "n1 < v" "0 < n1"
  shows "0 \<le> max 0 (1 - (v - n1) / n1) * 70 \<and> max 0 (1 - (v - n1) / n1) * 70 < 70"
proof -
  have "0 < (v - n1) / n1" using assms by simp
  then have "max 0 (1 - (v - n1) / n1) < 1" by simp
  moreover have "0 \<le> max 0 (1 - (v - n1) / n1)" by simp
  ultimately show ?thesis by simp
qed

text \<open>
  Claim C7. A metric without a band table scores 70. For a metric with bands, a value in
  the optimal band scores 95; a value in the normal band below (above) the optimal band
  scores 70 plus 20 times its relative distance from the normal edge towards the optimal
  edge, which lies in [70, 90); a value below the normal band scores 70 times
  \<open>max(0, value / lower edge)\<close> and a value above it 70 times
  \<open>max(0, 1 - (value - upper edge) / upper edge)\<close>, both in [0, 70). No division raises.
  For the heart rate, 75 scores 95, 45 scores 63 and 55 scores 80.
\<close>

theorem calculate_metric_score_contract:
  "(ranges m = None \<longrightarrow> calculate_metric_score v m = Inr 70)
   \<and> (\<forall>b. ranges m = Some b \<longrightarrow>
        (fst (optimal b) \<le> v \<and> v \<le> snd (optimal b)
           \<longrightarrow> calculate_metric_score v m = Inr 95)
      \<and> (fst (normal b) \<le> v \<and> v < fst (optimal b)
           \<longrightarrow> calculate_metric_score v m
                 = Inr (70 + (v - fst (normal b)) / (fst (optimal b) - fst (normal b)) * 20)
               \<and> 70 \<le> 70 + (v - fst (normal b)) / (fst (optimal b) - fst (normal b)) * 20
               \<and> 70 + (v - fst (normal b)) / (fst (optimal b) - fst (normal b)) * 20 < 90)
      \<and> (snd (optimal b) < v \<and> v \<le> snd (normal b)
           \<longrightarrow> calculate_metric_score v m
                 = Inr (70 + (snd (normal b) - v) / (snd (normal b) - snd (optimal b)) * 20)
               \<and> 70 \<le> 70 + (snd (normal b) - v) / (snd (normal b) - snd (optimal b)) * 20
               \<and> 70 + (snd (normal b) - v) / (snd (normal b) - snd (optimal b)) * 20 < 90)
      \<and> (v < fst (normal b)
           \<longrightarrow> calculate_metric_score v m = Inr (max 0 (v / fst (normal b)) * 70)
               \<and> 0 \<le> max 0 (v / fst (normal b)) * 70
               \<and> max 0 (v / fst (normal b)) * 70 < 70)
      \<and> (snd (normal b) < v
           \<longrightarrow> calculate_metric_score v m
                 = Inr (max 0 (1 - (v - snd (normal b)) / snd (normal b)) * 70)
               \<and> 0 \<le> max 0 (1 - (v - snd (normal b)) / snd (normal b)) * 70
               \<and> max 0 (1 - (v - snd (normal b)) / snd (normal b)) * 70 < 70))
   \<and> calculate_metric_score 75 ''heart_rate'' = Inr 95
   \<and> calculate_metric_score 45 ''heart_rate'' = Inr 63
   \<and> calculate_metric_score 55 ''heart_rate'' = Inr 80"
proof (intro conjI allI impI)
  assume "ranges m = None"
  then show "calculate_metric_score v m = Inr 70"
    by (simp add: calculate_metric_score_def)
next
  fix b assume b: "ranges m = Some b"
  assume "fst (optimal b) \<le> v \<and> v \<le> snd (optimal b)"
  then show "calculate_metric_score v m = Inr 95"
    using b by (simp add: calculate_metric_score_def score_optimal)
next
  fix b assume b: "ranges m = Some b"
  assume h: "fst (normal b) \<le> v \<and> v < fst (optimal b)"
  have "v \<le> snd (normal b)"
    using ranges_table [OF b] h by linarith
  then show "calculate_metric_score v m
      = Inr (70 + (v - fst (normal b)) / (fst (optimal b) - fst (normal b)) * 20)"
    using b h by (simp add: calculate_metric_score_def score_normal_low)
  show "70 \<le> 70 + (v - fst (normal b)) / (fst (optimal b) - fst (normal b)) * 20"
    using interp_low_range [of "fst (normal b)" v "fst (optimal b)"] h by simp
  show "70 + (v - fst (normal b)) / (fst (optimal b) - fst (normal b)) * 20 < 90"
    using interp_low_range [of "fst (normal b)" v "fst (optimal b)"] h by simp
next
  fix b assume b: "ranges m = Some b"
  assume h: "snd (optimal b) < v \<and> v \<le> snd (normal b)"
  have "fst (normal b) \<le> v" "fst (optimal b) \<le> snd (optimal b)"
    using ranges_table [OF b] h by linarith+
  then show "calculate_metric_score v m
      = Inr (70 + (snd (normal b) - v) / (snd (normal b) - snd (optimal b)) * 20)"
    using b h by (simp add: calculate_metric_score_def score_normal_high)
  show "70 \<le> 70 + (snd (normal b) - v) / (snd (normal b) - snd (optimal b)) * 20"
    using interp_high_range [of "snd (optimal b)" v "snd (normal b)"] h by simp
  show "70 + (snd (normal b) - v) / (snd (normal b) - snd (optimal b)) * 20 < 90"
    using interp_high_range [of "snd (optimal b)" v "snd (normal b)"] h by simp
next
  fix b assume b: "ranges m = Some b"
  assume h: "v < fst (normal b)"
  show "calculate_metric_score v m = Inr (max 0 (v / fst (normal b)) * 70)"
    using b h ranges_table [OF b] by (simp add: calculate_metric_score_def score_below)
  show "0 \<le> max 0 (v / fst (normal b)) * 70"
    using below_range [of v "fst (normal b)"] h ranges_table [OF b] by simp
  show "max 0 (v / fst (normal b)) * 70 < 70"
    using below_range [of v "fst (normal b)"] h ranges_table [OF b] by simp
next
  fix b assume b: "ranges m = Some b"
  assume h: "snd (normal b) < v"
  have p: "0 < snd (normal b)"
    using ranges_table [OF b] by linarith
  show "calculate_metric_score v m
      = Inr (max 0 (1 - (v - snd (normal b)) / snd (normal b)) * 70)"
    using b h ranges_table [OF b] by (simp add: calculate_metric_score_def score_above)
  show "0 \<le> max 0 (1 - (v - snd (normal b)) / snd (normal b)) * 70"
    using above_range [of "snd (normal b)" v] h p by simp
  show "max 0 (1 - (v - snd (normal b)) / snd (normal b)) * 70 < 70"
    using above_range [of "snd (normal b)" v] h p by simp
next
  show "calculate_metric_score 75 ''heart_rate'' = Inr 95"
    by (simp add: calculate_metric_score_def ranges_def score_in_bands_def)
  show "calculate_metric_score 45 ''heart_rate'' = Inr 63"
    by (simp add: calculate_metric_score_def ranges_def score_in_bands_def py_truediv_def)
  show "calculate_metric_score 55 ''heart_rate'' = Inr 80"
    by (simp add: calculate_metric_score_def ranges_def score_in_bands_def py_truediv_def)
qed

theorem calculate_metric_score_contract_witness:
  "ranges ''heart_rate'' = Some heart_rate_bands
   \<and> ranges ''mood'' = None
   \<and> calculate_metric_score 75 ''heart_rate'' = Inr 95
   \<and> calculate_metric_score 55 ''heart_rate'' = Inr 80
   \<and> calculate_metric_score 90 ''heart_rate'' = Inr 80
   \<and> calculate_metric_score 45 ''heart_rate'' = Inr 63
   \<and> calculate_metric_score 120 ''heart_rate'' = Inr 56
   \<and> calculate_metric_score 75 ''mood'' = Inr 70"
proof -
  have r: "ranges ''heart_rate'' = Some heart_rate_bands"
    by (simp add: ranges_def heart_rate_bands_def)
  have n: "ranges ''mood'' = None"
    by (simp add: ranges_def)
  show ?thesis
    using calculate_metric_score_contract [of "''heart_rate''" 75]
      calculate_metric_score_contract [of "''heart_rate''" 55]
      calculate_metric_score_contract [of "''heart_rate''" 90]
      calculate_metric_score_contract [of "''heart_rate''" 45]
      calculate_metric_score_contract [of "''heart_rate''" 120]
      calculate_metric_score_contract [of "''mood''" 75]
    by (simp add: r n heart_rate_bands_def)
qed

section \<open>Results about double arithmetic\<close>

text \<open>
  Rounding to the nearest integer is monotone, odd and within a half; rounding to the
  nearest double is evaluated from the binade of its argument, keeps every number with
  a significand below \<open>2 ^ 53\<close>, and is monotone, odd and idempotent.
\<close>

lemma ulp_pos: "0 < ulp x"
  by (simp add: ulp_def)

lemma py_round_of_int [simp]: "py_round (of_int k) = k"
  by (simp add: py_round_def)

lemma py_round_error: "\<bar>of_int (py_round x) - x\<bar> \<le> 1 / 2"
  unfolding py_round_def Let_def by (auto; linarith)

lemma py_round_mono: "x \<le> y \<Longrightarrow> py_round x \<le> py_round y"
proof (rule ccontr)
  assume xy: "x \<le> y" and "\<not> py_round x \<le> py_round y"
  then have "py_round y + 1 \<le> py_round x" by simp
  then have "real_of_int (py_round y) + 1 \<le> of_int (py_round x)" by linarith
  moreover have "of_int (py_round x) \<le> x + 1 / 2" "y - 1 / 2 \<le> of_int (py_round y)"
    using py_round_error [of x] py_round_error [of y] by linarith+
  ultimately have "x = y" using xy by linarith
  with \<open>\<not> py_round x \<le> py_round y\<close> show False by simp
qed

lemma float_exponent_eq:
  assumes "2 powi e \<le> \<bar>x\<bar>" "\<bar>x\<bar> < 2 powi (e + 1)" "- 1022 \<le> e"
  shows "float_exponent x = e"
proof -
  have pos: "0 < \<bar>x\<bar>"
    using assms(1) by (smt (verit) zero_less_power_int)
  have "2 powr (real_of_int e + 1) = 2 powi (e + 1)"
    using powr_real_of_int' [of 2 "e + 1"] by simp
  then have "\<lfloor>log 2 \<bar>x\<bar>\<rfloor> = e"
    using assms pos by (simp add: floor_log_eq_powr_iff powr_real_of_int')
  then show ?thesis
    using assms(3) by (simp add: float_exponent_def)
qed

lemma fl_eval:
  assumes "2 powi e \<le> \<bar>x\<bar>" "\<bar>x\<bar> < 2 powi (e + 1)" "- 1022 \<le> e"
  shows "fl x = of_int (py_round (x / 2 powi (e - 52))) * 2 powi (e - 52)"
proof -
  have "x \<noteq> 0" using assms(1) by (smt (verit) zero_less_power_int)
  then show ?thesis
    by (simp add: fl_def ulp_def float_exponent_eq [OF assms])
qed

lemma float_exponent_ge: "- 1022 \<le> float_exponent x"
  by (simp add: float_exponent_def)

lemma float_exponent_le:
  assumes "x \<noteq> 0" "\<bar>x\<bar> < 2 powi (k + 1)" "- 1022 \<le> k"
  shows "float_exponent x \<le> k"
proof -
  have "2 powr (real_of_int (k + 1)) = 2 powi (k + 1)"
    using powr_real_of_int' [of 2 "k + 1"] by simp
  then have "log 2 \<bar>x\<bar> < real_of_int (k + 1)"
    using assms(1,2) by (simp add: log_less_iff)
  then have "\<lfloor>log 2 \<bar>x\<bar>\<rfloor> < k + 1"
    by (simp only: floor_less_iff)
  then show ?thesis
    using assms(3) by (simp add: float_exponent_def)
qed

lemma fl_exact:
  assumes x: "x = of_int m * 2 powi q" and m: "\<bar>m\<bar> < 2 ^ 53" and q: "- 1074 \<le> q"
  shows "fl x = x"
proof (cases "x = 0")
  case True
  then show ?thesis by (simp add: fl_def)
next
  case False
  define e where "e = float_exponent x"
  have "\<bar>x\<bar> = of_int \<bar>m\<bar> * 2 powi q"
    by (simp add: x abs_mult)
  also have "\<dots> < 2 ^ 53 * 2 powi q"
  proof -
    have "real_of_int \<bar>m\<bar> < real_of_int (2 ^ 53)"
      using m by (simp only: of_int_less_iff)
    then show ?thesis by simp
  qed
  also have "\<dots> = 2 powi (q + 52 + 1)"
    by (simp add: power_int_add)
  finally have "\<bar>x\<bar> < 2 powi (q + 52 + 1)" .
  then have le: "e \<le> q + 52"
    unfolding e_def using False q by (intro float_exponent_le) simp_all
  define k where "k = nat (q - (e - 52))"
  have k: "q = (e - 52) + int k"
    using le by (simp add: k_def)
  have "x = of_int (m * 2 ^ k) * 2 powi (e - 52)"
    by (simp add: x k power_int_add)
  moreover have "(2::real) powi (e - 52) \<noteq> 0"
    by simp
  ultimately have "x / 2 powi (e - 52) = of_int (m * 2 ^ k)"
    by (metis nonzero_mult_div_cancel_right)
  then have "x / ulp x = of_int (m * 2 ^ k)"
    by (simp only: ulp_def e_def)
  then have "fl x = of_int (m * 2 ^ k) * ulp x"
    using False by (simp only: fl_def py_round_of_int if_False)
  also have "\<dots> = x"
    using \<open>x / ulp x = of_int (m * 2 ^ k)\<close> ulp_pos [of x] by (simp add: field_simps)
  finally show ?thesis .
qed

lemma fl_of_int: "\<bar>k\<bar> < 2 ^ 53 \<Longrightarrow> fl (of_int k) = of_int k"
  using fl_exact [of "of_int k" k 0] by simp

lemma fl_numeral [simp]: "numeral n < (2 ^ 53 :: int) \<Longrightarrow> fl (numeral n) = numeral n"
  using fl_of_int [of "numeral n"] by simp

lemma fl_zero [simp]: "fl 0 = 0"
  by (simp add: fl_def)

lemma fl_one [simp]: "fl 1 = 1"
  using fl_of_int [of 1] by simp

lemma fl_nonneg: "0 \<le> x \<Longrightarrow> 0 \<le> fl x"
proof -
  assume "0 \<le> x"
  then have "0 \<le> x / ulp x"
    using ulp_pos [of x] by simp
  then have "py_round 0 \<le> py_round (x / ulp x)"
    by (rule py_round_mono)
  then have "0 \<le> py_round (x / ulp x)"
    using py_round_of_int [of 0] by simp
  then show ?thesis
    using ulp_pos [of x] by (simp add: fl_def)
qed

lemma py_round_minus: "py_round (- x) = - py_round x"
proof (cases "x = of_int \<lfloor>x\<rfloor>")
  case True
  then obtain k where "x = of_int k" ..
  then show ?thesis
    using py_round_of_int [of "- k"] by simp
next
  case False
  then have lt: "of_int \<lfloor>x\<rfloor> < x"
    using of_int_floor_le [of x] by linarith
  have "\<lfloor>- x\<rfloor> = - \<lfloor>x\<rfloor> - 1"
    by (rule floor_unique) (use lt in \<open>simp; linarith\<close>, use lt in \<open>simp; linarith\<close>)
  then show ?thesis
    using lt by (auto simp: py_round_def Let_def)
qed

lemma float_exponent_minus [simp]: "float_exponent (- x) = float_exponent x"
  by (simp add: float_exponent_def)

lemma ulp_minus [simp]: "ulp (- x) = ulp x"
  by (simp add: ulp_def)

lemma fl_minus: "fl (- x) = - fl x"
  by (simp add: fl_def py_round_minus)

lemma fl_nonpos: "x \<le> 0 \<Longrightarrow> fl x \<le> 0"
  using fl_nonneg [of "- x"] by (simp add: fl_minus)

lemma float_exponent_mono:
  assumes "0 < x" "x \<le> y"
  shows "float_exponent x \<le> float_exponent y"
proof -
  have "log 2 x \<le> log 2 y"
    using assms by simp
  then have "\<lfloor>log 2 x\<rfloor> \<le> \<lfloor>log 2 y\<rfloor>"
    by (rule floor_mono)
  then show ?thesis
    using assms by (simp add: float_exponent_def)
qed

lemma below_next_binade:
  assumes "0 < x"
  shows "x < 2 powi (float_exponent x + 1)"
proof -
  have "log 2 x < of_int \<lfloor>log 2 x\<rfloor> + 1"
    by linarith
  also have "\<dots> \<le> of_int (float_exponent x + 1)"
    using assms by (simp add: float_exponent_def)
  finally have "x < 2 powr of_int (float_exponent x + 1)"
    using assms by (simp add: log_less_iff)
  then show ?thesis
    using powr_real_of_int' [of 2 "float_exponent x + 1"] by simp
qed

lemma above_binade:
  assumes "0 < x" "- 1022 < float_exponent x"
  shows "2 powi (float_exponent x) \<le> x"
proof -
  have e: "float_exponent x = \<lfloor>log 2 x\<rfloor>"
    using assms by (simp add: float_exponent_def max_def split: if_splits)
  have "of_int (float_exponent x) \<le> log 2 x"
    unfolding e by simp
  then have "2 powr of_int (float_exponent x) \<le> x"
    using assms(1) by (simp add: le_log_iff)
  then show ?thesis
    using powr_real_of_int' [of 2 "float_exponent x"] by simp
qed

lemma binade_top: "2 ^ 53 * 2 powi (e - 52) = (2::real) powi (e + 1)"
proof -
  have "e + 1 = 53 + (e - 52)"
    by simp
  then have "(2::real) powi (e + 1) = 2 powi (53 + (e - 52))"
    by (rule arg_cong)
  also have "\<dots> = 2 powi 53 * 2 powi (e - 52)"
    by (rule power_int_add) simp
  finally show ?thesis by simp
qed

lemma binade_bottom: "2 ^ 52 * 2 powi (e - 52) = (2::real) powi e"
proof -
  have "e = 52 + (e - 52)"
    by simp
  then have "(2::real) powi e = 2 powi (52 + (e - 52))"
    by (rule arg_cong)
  also have "\<dots> = 2 powi 52 * 2 powi (e - 52)"
    by (rule power_int_add) simp
  finally show ?thesis by simp
qed

lemma significand_le:
  assumes "0 < x"
  shows "py_round (x / ulp x) \<le> 2 ^ 53"
proof -
  have "x / ulp x < 2 powi (float_exponent x + 1) / 2 powi (float_exponent x - 52)"
    unfolding ulp_def using below_next_binade [OF assms] by (simp add: divide_strict_right_mono)
  also have "\<dots> = 2 powi 53"
    by (simp add: power_int_diff [symmetric])
  finally have "x / ulp x \<le> real_of_int (2 ^ 53)"
    by simp
  then have "py_round (x / ulp x) \<le> py_round (real_of_int (2 ^ 53))"
    by (rule py_round_mono)
  then show ?thesis
    by (simp only: py_round_of_int)
qed

lemma fl_le_next_binade:
  assumes "0 < x"
  shows "fl x \<le> 2 powi (float_exponent x + 1)"
proof -
  have "real_of_int (py_round (x / ulp x)) \<le> real_of_int (2 ^ 53)"
    using significand_le [OF assms] by (simp only: of_int_le_iff)
  then have "real_of_int (py_round (x / ulp x)) * ulp x \<le> 2 ^ 53 * ulp x"
    using ulp_pos [of x] by simp
  also have "\<dots> = 2 powi (float_exponent x + 1)"
    unfolding ulp_def by (rule binade_top)
  finally show ?thesis
    using assms by (simp add: fl_def)
qed

lemma fl_ge_binade:
  assumes "0 < x" "- 1022 < float_exponent x"
  shows "2 powi (float_exponent x) \<le> fl x"
proof -
  have "2 powi (float_exponent x) / ulp x \<le> x / ulp x"
    using above_binade [OF assms] ulp_pos [of x] by (simp add: divide_right_mono)
  moreover have "2 powi (float_exponent x) / ulp x = real_of_int (2 ^ 52)"
    unfolding ulp_def by (simp add: power_int_diff [symmetric])
  ultimately have "py_round (real_of_int (2 ^ 52)) \<le> py_round (x / ulp x)"
    by (intro py_round_mono) simp
  then have "real_of_int (2 ^ 52) \<le> real_of_int (py_round (x / ulp x))"
    by (simp only: py_round_of_int of_int_le_iff)
  then have "2 ^ 52 * ulp x \<le> real_of_int (py_round (x / ulp x)) * ulp x"
    using ulp_pos [of x] by simp
  moreover have "2 ^ 52 * ulp x = 2 powi (float_exponent x)"
    unfolding ulp_def by (rule binade_bottom)
  ultimately show ?thesis
    using assms by (simp add: fl_def)
qed

lemma fl_mono_pos:
  assumes "0 < x" "x \<le> y"
  shows "fl x \<le> fl y"
proof (cases "float_exponent x = float_exponent y")
  case True
  then have u: "ulp x = ulp y"
    by (simp add: ulp_def)
  have "x / ulp y \<le> y / ulp y"
    using assms ulp_pos [of y] by (simp add: divide_right_mono)
  then have "py_round (x / ulp y) \<le> py_round (y / ulp y)"
    by (rule py_round_mono)
  then have "real_of_int (py_round (x / ulp y)) * ulp y \<le> real_of_int (py_round (y / ulp y)) * ulp y"
    using ulp_pos [of y] by simp
  then show ?thesis
    using assms by (simp add: fl_def u)
next
  case False
  have y: "0 < y" using assms by linarith
  have lt: "float_exponent x < float_exponent y"
    using False float_exponent_mono [OF assms] by linarith
  then have "- 1022 < float_exponent y"
    using float_exponent_ge [of x] by linarith
  then have "2 powi (float_exponent y) \<le> fl y"
    by (rule fl_ge_binade [OF y])
  moreover have "(2::real) powi (float_exponent x + 1) \<le> 2 powi (float_exponent y)"
    using lt by (intro power_int_increasing) simp_all
  ultimately show ?thesis
    using fl_le_next_binade [OF assms(1)] by linarith
qed

lemma fl_mono: "x \<le> y \<Longrightarrow> fl x \<le> fl y"
proof -
  assume xy: "x \<le> y"
  consider "0 < x" | "x \<le> 0" "0 \<le> y" | "y < 0" by linarith
  then show ?thesis
  proof cases
    case 1
    then show ?thesis using xy by (rule fl_mono_pos)
  next
    case 2
    then show ?thesis using fl_nonpos [of x] fl_nonneg [of y] by linarith
  next
    case 3
    then have "fl (- y) \<le> fl (- x)"
      using xy by (intro fl_mono_pos) simp_all
    then show ?thesis by (simp add: fl_minus)
  qed
qed

lemma fl_idem: "fl (fl x) = fl x"
proof -
  have pos: "fl (fl x) = fl x" if "0 < x" for x
  proof -
    define k where "k = py_round (x / ulp x)"
    have fx: "fl x = of_int k * 2 powi (float_exponent x - 52)"
      using that by (simp add: fl_def k_def ulp_def)
    have k0: "0 \<le> k"
      using py_round_mono [of 0 "x / ulp x"] that ulp_pos [of x] py_round_of_int [of 0]
      by (simp add: k_def)
    have "k \<le> 2 ^ 53"
      unfolding k_def by (rule significand_le [OF that])
    then consider "k < 2 ^ 53" | "k = 2 ^ 53" by linarith
    then show ?thesis
    proof cases
      case 1
      show ?thesis
        by (rule fl_exact [OF fx]) (use 1 k0 float_exponent_ge [of x] in simp_all)
    next
      case 2
      have "fl x = of_int 1 * 2 powi (float_exponent x + 1)"
        unfolding fx 2 using binade_top [of "float_exponent x"] by simp
      then show ?thesis
        by (rule fl_exact) (use float_exponent_ge [of x] in simp_all)
    qed
  qed
  consider "0 < x" | "x = 0" | "x < 0" by linarith
  then show ?thesis
  proof cases
    case 1
    then show ?thesis by (rule pos)
  next
    case 2
    then show ?thesis by simp
  next
    case 3
    then have "fl (fl (- x)) = fl (- x)" by (intro pos) simp
    then show ?thesis by (simp add: fl_minus)
  qed
qed

text \<open>Doubles: the largest one, every rounded number in range, the dyadic fractions.\<close>

lemma max_double_exact: "fl max_double = max_double"
  unfolding max_double_def using fl_exact [of "(2 ^ 53 - 1) * 2 ^ 971" "2 ^ 53 - 1" 971]
  by simp

lemma is_double_fl:
  assumes "\<bar>x\<bar> \<le> max_double"
  shows "is_double (fl x)"
proof -
  have "x \<le> max_double" "- max_double \<le> x"
    using assms by linarith+
  then have "fl x \<le> fl max_double" "fl (- max_double) \<le> fl x"
    by (simp_all only: fl_mono)
  then have "\<bar>fl x\<bar> \<le> max_double"
    by (simp add: fl_minus max_double_exact abs_le_iff)
  then show ?thesis
    by (simp add: is_double_def fl_idem)
qed

lemma is_double_dyadic:
  assumes "\<bar>m\<bar> < 2 ^ 53" "k \<le> 1074"
  shows "is_double (of_int m / 2 ^ k)"
proof -
  have x: "real_of_int m / 2 ^ k = of_int m * 2 powi (- int k)"
    by (simp add: power_int_minus field_simps)
  have "fl (of_int m / 2 ^ k) = of_int m / 2 ^ k"
    by (rule fl_exact [OF x assms(1)]) (use assms(2) in simp)
  moreover have "\<bar>real_of_int m / 2 ^ k\<bar> \<le> \<bar>real_of_int m\<bar>"
    by (simp add: field_simps mult_le_cancel_left1 abs_mult)
  moreover have "\<bar>real_of_int m\<bar> \<le> real_of_int (2 ^ 53)"
  proof -
    have "\<bar>m\<bar> \<le> 2 ^ 53"
      using assms(1) by linarith
    then have "real_of_int \<bar>m\<bar> \<le> real_of_int (2 ^ 53)"
      by (simp only: of_int_le_iff)
    then show ?thesis
      by simp
  qed
  moreover have "real_of_int (2 ^ 53) \<le> max_double"
    by (simp add: max_double_def)
  ultimately show ?thesis
    unfolding is_double_def by linarith
qed

lemma is_double_of_int: "\<bar>m\<bar> < 2 ^ 53 \<Longrightarrow> is_double (of_int m)"
  using is_double_dyadic [of m 0] by simp

lemma is_double_numeral [simp]: "numeral n < (2 ^ 53 :: int) \<Longrightarrow> is_double (numeral n)"
  using is_double_of_int [of "numeral n"] by simp

lemma is_double_zero [simp]: "is_double 0"
  using is_double_of_int [of 0] by simp

section \<open>Results about the composite health score\<close>

lemma score_in_bands_total:
  assumes "0 < fst (normal b)" "fst (normal b) \<le> fst (optimal b)"
    "fst (optimal b) \<le> snd (optimal b)" "snd (optimal b) \<le> snd (normal b)"
  shows "\<exists>s. score_in_bands v b = Inr s \<and> 0 \<le> s"
proof -
  consider "fst (optimal b) \<le> v \<and> v \<le> snd (optimal b)"
    | "fst (normal b) \<le> v \<and> v < fst (optimal b)"
    | "snd (optimal b) < v \<and> v \<le> snd (normal b)"
    | "v < fst (normal b)" | "snd (normal b) < v"
    by linarith
  then show ?thesis
  proof cases
    case 1
    then show ?thesis by (simp add: score_optimal)
  next
    case 2
    then have "score_in_bands v b
        = Inr (70 + (v - fst (normal b)) / (fst (optimal b) - fst (normal b)) * 20)"
      using assms by (intro score_normal_low) linarith+
    moreover have "70 \<le> 70 + (v - fst (normal b)) / (fst (optimal b) - fst (normal b)) * 20"
      using interp_low_range [of "fst (normal b)" v "fst (optimal b)"] 2 by simp
    ultimately show ?thesis by simp
  next
    case 3
    then have "score_in_bands v b
        = Inr (70 + (snd (normal b) - v) / (snd (normal b) - snd (optimal b)) * 20)"
      using assms by (intro score_normal_high) linarith+
    moreover have "70 \<le> 70 + (snd (normal b) - v) / (snd (normal b) - snd (optimal b)) * 20"
      using interp_high_range [of "snd (optimal b)" v "snd (normal b)"] 3 by simp
    ultimately show ?thesis by simp
  next
    case 4
    then have "score_in_bands v b = Inr (max 0 (v / fst (normal b)) * 70)"
      using assms by (intro score_below)
    then show ?thesis by simp
  next
    case 5
    then have "score_in_bands v b = Inr (max 0 (1 - (v - snd (normal b)) / snd (normal b)) * 70)"
      using assms by (intro score_above)
    then show ?thesis by simp
  qed
qed

lemma calculate_metric_score_total:
  "\<exists>s. calculate_metric_score v m = Inr s \<and> 0 \<le> s"
proof (cases "ranges m")
  case None
  then show ?thesis by (simp add: calculate_metric_score_def)
next
  case (Some b)
  then show ?thesis
    using score_in_bands_total [of b v] ranges_table [OF Some]
    by (simp add: calculate_metric_score_def)
qed


lemma the_score_nonneg: "0 \<le> the_score v m"
  using calculate_metric_score_total [of v m] by (auto simp: the_score_def)



section \<open>Results about the composite health score in double arithmetic\<close>

lemma f_truediv_Inr: "b \<noteq> 0 \<Longrightarrow> f_truediv a b = Inr (fl (a / b))"
  by (simp add: f_truediv_def)

lemma fl_pos:
  assumes "1 / 2 ^ 1074 \<le> x"
  shows "0 < fl x"
proof -
  have "fl (1 / 2 ^ 1074) = 1 / 2 ^ 1074"
    using fl_exact [of "1 / 2 ^ 1074" 1 "- 1074"] by (simp add: power_int_minus field_simps)
  moreover have "fl (1 / 2 ^ 1074) \<le> fl x"
    using assms by (rule fl_mono)
  ultimately show ?thesis
    by (smt (verit) divide_pos_pos zero_less_numeral zero_less_one zero_less_power)
qed

text \<open>The literals of the band table and of the weights that are no doubles.\<close>

lemma double_literals:
  "fl (39 / 10) = 8782019273372467 / 2 ^ 51"
  "fl (61 / 10) = 3433994715870003 / 2 ^ 49"
  "fl (15 / 100) = 5404319552844595 / 2 ^ 55"
  "fl (20 / 100) = 3602879701896397 / 2 ^ 54"
  "fl (10 / 100) = 3602879701896397 / 2 ^ 55"
  "fl (55 / 10) = 55 / 10"
  "fl (185 / 10) = 185 / 10"
  "fl (3 / 20) = 5404319552844595 / 2 ^ 55"
  "fl (1 / 5) = 3602879701896397 / 2 ^ 54"
  "fl (1 / 10) = 3602879701896397 / 2 ^ 55"
  "fl (11 / 2) = 11 / 2"
  "fl (37 / 2) = 37 / 2"
proof -
  show "fl (3 / 20) = 5404319552844595 / 2 ^ 55"
    by (subst fl_eval [where e = "- 3"]) (simp_all add: py_round_def)
  show "fl (1 / 5) = 3602879701896397 / 2 ^ 54"
    by (subst fl_eval [where e = "- 3"]) (simp_all add: py_round_def)
  show "fl (1 / 10) = 3602879701896397 / 2 ^ 55"
    by (subst fl_eval [where e = "- 4"]) (simp_all add: py_round_def)
  show "fl (11 / 2) = 11 / 2"
    using fl_exact [of "11 / 2" 11 "- 1"] by simp
  show "fl (37 / 2) = 37 / 2"
    using fl_exact [of "37 / 2" 37 "- 1"] by simp
  show "fl (39 / 10) = 8782019273372467 / 2 ^ 51"
    by (subst fl_eval [where e = 1]) (simp_all add: py_round_def)
  show "fl (61 / 10) = 3433994715870003 / 2 ^ 49"
    by (subst fl_eval [where e = 2]) (simp_all add: py_round_def)
  show "fl (15 / 100) = 5404319552844595 / 2 ^ 55"
    by (subst fl_eval [where e = "- 3"]) (simp_all add: py_round_def)
  show "fl (20 / 100) = 3602879701896397 / 2 ^ 54"
    by (subst fl_eval [where e = "- 3"]) (simp_all add: py_round_def)
  show "fl (10 / 100) = 3602879701896397 / 2 ^ 55"
    by (subst fl_eval [where e = "- 4"]) (simp_all add: py_round_def)
  show "fl (55 / 10) = 55 / 10"
    using fl_exact [of "55 / 10" 11 "- 1"] by simp
  show "fl (185 / 10) = 185 / 10"
    using fl_exact [of "185 / 10" 37 "- 1"] by simp
qed

text \<open>
  Every row of the rounded band table has positive normal edges, and where two edges
  differ, their rounded difference is not zero.
\<close>

lemma double_ranges_table:
  assumes "ranges m = Some b"
  shows "0 < fst (normal (double_bands b)) \<and> 0 < snd (normal (double_bands b))
    \<and> (fst (normal (double_bands b)) < fst (optimal (double_bands b))
         \<longrightarrow> f_sub (fst (optimal (double_bands b))) (fst (normal (double_bands b))) \<noteq> 0)
    \<and> (snd (optimal (double_bands b)) < snd (normal (double_bands b))
         \<longrightarrow> f_sub (snd (normal (double_bands b))) (snd (optimal (double_bands b))) \<noteq> 0)"
proof -
  from assms have "(m, b) \<in> set
     [(''heart_rate'', \<lparr>optimal = (60, 80), normal = (50, 100)\<rparr>),
      (''blood_pressure_sys'', \<lparr>optimal = (100, 120), normal = (90, 140)\<rparr>),
      (''blood_pressure_dia'', \<lparr>optimal = (60, 80), normal = (60, 90)\<rparr>),
      (''blood_sugar'', \<lparr>optimal = (4, 55 / 10), normal = (39 / 10, 61 / 10)\<rparr>),
      (''spo2'', \<lparr>optimal = (97, 100), normal = (94, 100)\<rparr>),
      (''sleep_duration'', \<lparr>optimal = (7, 8), normal = (6, 9)\<rparr>),
      (''steps'', \<lparr>optimal = (8000, 12000), normal = (5000, 15000)\<rparr>),
      (''bmi'', \<lparr>optimal = (185 / 10, 24), normal = (185 / 10, 28)\<rparr>)]"
    unfolding ranges_def by (rule map_of_SomeD)
  moreover have "f_sub 4 (8782019273372467 / 2 ^ 51) \<noteq> 0"
    unfolding f_sub_def using fl_pos [of "4 - 8782019273372467 / 2 ^ 51"] by simp
  moreover have "f_sub (3433994715870003 / 2 ^ 49) (55 / 10) \<noteq> 0"
    unfolding f_sub_def using fl_pos [of "3433994715870003 / 2 ^ 49 - 55 / 10"] by simp
  ultimately show ?thesis
    by (auto simp: double_bands_def double_literals f_sub_def)
qed

lemma score_in_bands_fl_total:
  assumes "0 < fst (normal b)" "0 < snd (normal b)"
    and "fst (normal b) < fst (optimal b) \<longrightarrow> f_sub (fst (optimal b)) (fst (normal b)) \<noteq> 0"
    and "snd (optimal b) < snd (normal b) \<longrightarrow> f_sub (snd (normal b)) (snd (optimal b)) \<noteq> 0"
  shows "\<exists>s. score_in_bands_fl v b = Inr s"
proof -
  consider "fst (optimal b) \<le> v \<and> v \<le> snd (optimal b)"
    | "\<not> (fst (optimal b) \<le> v \<and> v \<le> snd (optimal b))" "fst (normal b) \<le> v \<and> v \<le> snd (normal b)"
      "v < fst (optimal b)"
    | "\<not> (fst (optimal b) \<le> v \<and> v \<le> snd (optimal b))" "fst (normal b) \<le> v \<and> v \<le> snd (normal b)"
      "\<not> v < fst (optimal b)"
    | "\<not> (fst (normal b) \<le> v \<and> v \<le> snd (normal b))"
    by blast
  then show ?thesis
  proof cases
    case 1
    then show ?thesis by (simp add: score_in_bands_fl_def)
  next
    case 2
    then have "f_sub (fst (optimal b)) (fst (normal b)) \<noteq> 0"
      using assms(3) by linarith
    then show ?thesis
      using 2 by (simp add: score_in_bands_fl_def f_truediv_Inr)
  next
    case 3
    then have "f_sub (snd (normal b)) (snd (optimal b)) \<noteq> 0"
      using assms(4) by linarith
    then show ?thesis
      using 3 by (simp add: score_in_bands_fl_def f_truediv_Inr)
  next
    case 4
    then show ?thesis
      using assms(1,2) by (simp add: score_in_bands_fl_def f_truediv_Inr)
  qed
qed

lemma calculate_metric_score_fl_total: "\<exists>s. calculate_metric_score_fl v m = Inr s"
proof (cases "ranges m")
  case None
  then show ?thesis by (simp add: calculate_metric_score_fl_def)
next
  case (Some b)
  then show ?thesis
    using score_in_bands_fl_total [of "double_bands b" v] double_ranges_table [OF Some]
    by (simp add: calculate_metric_score_fl_def)
qed

lemma calculate_metric_score_fl_the_score:
  "calculate_metric_score_fl v m = Inr (the_score_fl v m)"
  using calculate_metric_score_fl_total [of v m] by (auto simp: the_score_fl_def)

lemma float_wsum_from_append:
  "float_wsum_from a (ps @ qs) = float_wsum_from (float_wsum_from a ps) qs"
  by (simp add: float_wsum_from_def)

lemma float_wtotal_from_append:
  "float_wtotal_from a (ps @ qs) = float_wtotal_from (float_wtotal_from a ps) qs"
  by (simp add: float_wtotal_from_def)

lemma add_category_fl_sums:
  "\<exists>st'. add_category_fl metrics key category (fl w) st = Inr st'
     \<and> weighted_sum st' = float_wsum_from (weighted_sum st) (cat_entry_fl metrics key w)
     \<and> total_weight st' = float_wtotal_from (total_weight st) (cat_entry_fl metrics key w)"
  by (cases "metrics key")
    (simp_all add: add_category_fl_def cat_entry_fl_def float_wsum_from_def float_wtotal_from_def
      calculate_metric_score_fl_the_score)

lemma add_blood_pressure_fl_sums:
  "\<exists>st'. add_blood_pressure_fl metrics st = Inr st'
     \<and> weighted_sum st' = float_wsum_from (weighted_sum st) (bp_entry_fl metrics)
     \<and> total_weight st' = float_wtotal_from (total_weight st) (bp_entry_fl metrics)"
  by (cases "metrics ''blood_pressure_sys''"; cases "metrics ''blood_pressure_dia''")
    (simp_all add: add_blood_pressure_fl_def bp_entry_fl_def float_wsum_from_def
      float_wtotal_from_def calculate_metric_score_fl_the_score WEIGHTS_def Let_def)

lemma calculate_overall_score_fl_state:
  "\<exists>st. calculate_overall_score_fl metrics = finish_overall_score_fl st
     \<and> weighted_sum st = float_wsum (present_categories_fl metrics)
     \<and> total_weight st = float_wtotal (present_categories_fl metrics)"
proof -
  let ?init = "\<lparr>category_scores = [], weighted_sum = 0, total_weight = 0\<rparr>"
  have w: "w_heart_rate WEIGHTS = 15 / 100" "w_blood_sugar WEIGHTS = 15 / 100"
    "w_sleep WEIGHTS = 15 / 100" "w_activity WEIGHTS = 15 / 100"
    "w_spo2 WEIGHTS = 10 / 100" "w_weight WEIGHTS = 10 / 100"
    by (simp_all add: WEIGHTS_def)
  obtain s1 where s1: "add_category_fl metrics ''heart_rate'' ''heart_rate'' (fl (15 / 100)) ?init = Inr s1"
    "weighted_sum s1 = float_wsum_from (weighted_sum ?init) (cat_entry_fl metrics ''heart_rate'' (15 / 100))"
    "total_weight s1 = float_wtotal_from (total_weight ?init) (cat_entry_fl metrics ''heart_rate'' (15 / 100))"
    using add_category_fl_sums by blast
  obtain s2 where s2: "add_blood_pressure_fl metrics s1 = Inr s2"
    "weighted_sum s2 = float_wsum_from (weighted_sum s1) (bp_entry_fl metrics)"
    "total_weight s2 = float_wtotal_from (total_weight s1) (bp_entry_fl metrics)"
    using add_blood_pressure_fl_sums by blast
  obtain s3 where s3: "add_category_fl metrics ''blood_sugar'' ''blood_sugar'' (fl (15 / 100)) s2 = Inr s3"
    "weighted_sum s3 = float_wsum_from (weighted_sum s2) (cat_entry_fl metrics ''blood_sugar'' (15 / 100))"
    "total_weight s3 = float_wtotal_from (total_weight s2) (cat_entry_fl metrics ''blood_sugar'' (15 / 100))"
    using add_category_fl_sums by blast
  obtain s4 where s4: "add_category_fl metrics ''sleep_duration'' ''sleep'' (fl (15 / 100)) s3 = Inr s4"
    "weighted_sum s4 = float_wsum_from (weighted_sum s3) (cat_entry_fl metrics ''sleep_duration'' (15 / 100))"
    "total_weight s4 = float_wtotal_from (total_weight s3) (cat_entry_fl metrics ''sleep_duration'' (15 / 100))"
    using add_category_fl_sums by blast
  obtain s5 where s5: "add_category_fl metrics ''steps'' ''activity'' (fl (15 / 100)) s4 = Inr s5"
    "weighted_sum s5 = float_wsum_from (weighted_sum s4) (cat_entry_fl metrics ''steps'' (15 / 100))"
    "total_weight s5 = float_wtotal_from (total_weight s4) (cat_entry_fl metrics ''steps'' (15 / 100))"
    using add_category_fl_sums by blast
  obtain s6 where s6: "add_category_fl metrics ''spo2'' ''spo2'' (fl (10 / 100)) s5 = Inr s6"
    "weighted_sum s6 = float_wsum_from (weighted_sum s5) (cat_entry_fl metrics ''spo2'' (10 / 100))"
    "total_weight s6 = float_wtotal_from (total_weight s5) (cat_entry_fl metrics ''spo2'' (10 / 100))"
    using add_category_fl_sums by blast
  obtain s7 where s7: "add_category_fl metrics ''bmi'' ''weight'' (fl (10 / 100)) s6 = Inr s7"
    "weighted_sum s7 = float_wsum_from (weighted_sum s6) (cat_entry_fl metrics ''bmi'' (10 / 100))"
    "total_weight s7 = float_wtotal_from (total_weight s6) (cat_entry_fl metrics ''bmi'' (10 / 100))"
    using add_category_fl_sums by blast
  have run: "calculate_overall_score_fl metrics = finish_overall_score_fl s7"
    by (simp only: calculate_overall_score_fl_def w s1(1) s2(1) s3(1) s4(1) s5(1) s6(1) s7(1)
        bind_r_Inr)
  have ws: "weighted_sum s7 = float_wsum (present_categories_fl metrics)"
    unfolding present_categories_fl_def float_wsum_def float_wsum_from_append
      s7(2) s6(2) s5(2) s4(2) s3(2) s2(2) s1(2)
    by simp
  have wt: "total_weight s7 = float_wtotal (present_categories_fl metrics)"
    unfolding present_categories_fl_def float_wtotal_def float_wtotal_from_append
      s7(3) s6(3) s5(3) s4(3) s3(3) s2(3) s1(3)
    by simp
  show ?thesis using run ws wt by blast
qed

lemma float_wtotal_from_pos:
  assumes "\<forall>p \<in> set ps. 0 < fst p \<and> fl (fst p) = fst p" "0 \<le> a" "ps \<noteq> []"
  shows "0 < float_wtotal_from a ps"
  using assms
proof (induction ps arbitrary: a)
  case Nil
  then show ?case by simp
next
  case (Cons p ps)
  have p: "0 < fst p" "fl (fst p) = fst p"
    using Cons.prems(1) by simp_all
  have "fl (fst p) \<le> fl (a + fst p)"
    using Cons.prems(2) by (intro fl_mono) simp
  then have pos: "0 < f_add a (fst p)"
    using p by (simp add: f_add_def)
  have step: "float_wtotal_from a (p # ps) = float_wtotal_from (f_add a (fst p)) ps"
    by (simp add: float_wtotal_from_def case_prod_beta)
  show ?case
  proof (cases "ps = []")
    case True
    then show ?thesis
      using pos by (simp add: step float_wtotal_from_def case_prod_beta)
  next
    case False
    have "0 < float_wtotal_from (f_add a (fst p)) ps"
      using Cons.prems(1) pos False by (intro Cons.IH) simp_all
    then show ?thesis
      by (simp only: step)
  qed
qed

lemma double_weights:
  "0 < fl (15 / 100)" "0 < fl (20 / 100)" "0 < fl (10 / 100)"
  by (simp_all add: double_literals)

lemma cat_entry_fl_weight:
  assumes "p \<in> set (cat_entry_fl metrics k w)"
  shows "fst p = fl w"
  using assms by (cases "metrics k") (auto simp: cat_entry_fl_def)

lemma bp_entry_fl_weight:
  assumes "p \<in> set (bp_entry_fl metrics)"
  shows "fst p = fl (20 / 100)"
  using assms
  by (cases "metrics ''blood_pressure_sys''"; cases "metrics ''blood_pressure_dia''")
    (auto simp: bp_entry_fl_def)

lemma present_categories_fl_weights:
  assumes "p \<in> set (present_categories_fl metrics)"
  shows "0 < fst p \<and> fl (fst p) = fst p"
proof -
  from assms consider k where "p \<in> set (cat_entry_fl metrics k (15 / 100))"
    | k where "p \<in> set (cat_entry_fl metrics k (10 / 100))"
    | "p \<in> set (bp_entry_fl metrics)"
    unfolding present_categories_fl_def set_append Un_iff by blast
  then show ?thesis
  proof cases
    case 1
    then have "fst p = fl (15 / 100)" by (rule cat_entry_fl_weight)
    then show ?thesis using double_weights(1) by (simp only: fl_idem simp_thms)
  next
    case 2
    then have "fst p = fl (10 / 100)" by (rule cat_entry_fl_weight)
    then show ?thesis using double_weights(3) by (simp only: fl_idem simp_thms)
  next
    case 3
    then have "fst p = fl (20 / 100)" by (rule bp_entry_fl_weight)
    then show ?thesis using double_weights(2) by (simp only: fl_idem simp_thms)
  qed
qed

lemma steps_and_sleep_run:
  "calculate_overall_score_fl steps_and_sleep
     = Inr \<lparr>overall_score = 59,
            os_category_scores = [(''sleep'', 47), (''activity'', 73)],
            level = ''poor''\<rparr>"
  by (simp add: calculate_overall_score_fl_def add_category_fl_def add_blood_pressure_fl_def
      steps_and_sleep_def calculate_metric_score_fl_def ranges_def double_bands_def
      score_in_bands_fl_def f_truediv_def f_add_def f_sub_def f_mul_def f_div_def
      WEIGHTS_def finish_overall_score_fl_def py_int_def score_level_def py_round_def
      fl_eval [where e = "- 3"] fl_eval [where e = "- 2"] fl_eval [where e = "- 1"]
      fl_eval [where e = 1]
      fl_eval [where e = 2] fl_eval [where e = 3] fl_eval [where e = 4]
      fl_eval [where e = 5] fl_eval [where e = 6])

lemma only_heart_rate_run:
  "calculate_overall_score_fl only_heart_rate
     = Inr \<lparr>overall_score = 95, os_category_scores = [(''heart_rate'', 95)],
            level = ''excellent''\<rparr>"
  by (simp add: calculate_overall_score_fl_def add_category_fl_def add_blood_pressure_fl_def
      only_heart_rate_def calculate_metric_score_fl_def ranges_def double_bands_def
      score_in_bands_fl_def f_truediv_def f_add_def f_sub_def f_mul_def f_div_def
      WEIGHTS_def finish_overall_score_fl_def py_int_def score_level_def py_round_def
      fl_eval [where e = "- 3"] fl_eval [where e = 3] fl_eval [where e = 6])

lemma only_spo2_run:
  "calculate_overall_score_fl only_spo2
     = Inr \<lparr>overall_score = 76, os_category_scores = [(''spo2'', 77)], level = ''good''\<rparr>"
  by (simp add: calculate_overall_score_fl_def add_category_fl_def add_blood_pressure_fl_def
      only_spo2_def calculate_metric_score_fl_def ranges_def double_bands_def
      score_in_bands_fl_def f_truediv_def f_add_def f_sub_def f_mul_def f_div_def
      WEIGHTS_def finish_overall_score_fl_def py_int_def score_level_def py_round_def
      fl_eval [where e = "- 4"] fl_eval [where e = "- 2"] fl_eval [where e = 2]
      fl_eval [where e = 6])

lemma only_spo2_categories:
  "present_categories_fl only_spo2 = [(fl (10 / 100), 5394937053620907 / 2 ^ 46)]"
proof -
  have "calculate_metric_score_fl 95 ''spo2'' = Inr (5394937053620907 / 2 ^ 46)"
    by (simp add: calculate_metric_score_fl_def ranges_def double_bands_def
        score_in_bands_fl_def f_truediv_def f_add_def f_sub_def f_mul_def py_round_def
        fl_eval [where e = "- 2"] fl_eval [where e = 2] fl_eval [where e = 6])
  then have "the_score_fl 95 ''spo2'' = 5394937053620907 / 2 ^ 46"
    by (simp only: the_score_fl_def sum.case)
  then show ?thesis
    by (simp add: present_categories_fl_def cat_entry_fl_def bp_entry_fl_def only_spo2_def)
qed

text \<open>
  Claim C8, as stated, fails: the function does not return the weighted average of the
  category scores. With an oxygen saturation of 95 alone the only category score is
  76.67 (77 in \<open>category_scores\<close>), which is also the weighted average, and the overall
  score is 76: the quotient is truncated, not rounded, and the single-category score
  is not the category score.
\<close>

theorem overall_score_truncates_counterexample:
  "calculate_overall_score_fl only_spo2
     = Inr \<lparr>overall_score = 76, os_category_scores = [(''spo2'', 77)], level = ''good''\<rparr>
   \<and> weighted_average (present_categories_fl only_spo2) = 5394937053620907 / 2 ^ 46
   \<and> py_round (weighted_average (present_categories_fl only_spo2)) = 77
   \<and> real_of_int 76 \<noteq> weighted_average (present_categories_fl only_spo2)"
proof -
  have avg: "weighted_average (present_categories_fl only_spo2) = 5394937053620907 / 2 ^ 46"
    unfolding only_spo2_categories
    by (simp add: weighted_average_def wsum_def wtotal_def double_literals)
  have "py_round (5394937053620907 / 2 ^ 46) = 77"
    by (simp add: py_round_def)
  then have rnd: "py_round (weighted_average (present_categories_fl only_spo2)) = 77"
    by (simp only: avg)
  have ne: "real_of_int 76 \<noteq> weighted_average (present_categories_fl only_spo2)"
    unfolding avg by simp
  show ?thesis
    using only_spo2_run avg rnd ne by (intro conjI)
qed

text \<open>
  Claim C8, amended. Let every reading be a double. The function never raises. Its
  overall score is 70 when no category is present. Otherwise it is
  \<open>int(weighted_sum / total_weight)\<close>, where both sums run over the categories present
  only (blood pressure counting when both of its readings are there), are accumulated
  in the order heart rate, blood pressure, blood sugar, sleep, activity, oxygen
  saturation, weight, and every operation is rounded to a double: the weighted average
  of the unrounded category scores, truncated to an integer, up to the rounding of the
  doubles. The level is read off the overall score. With only a heart rate of 70 the
  overall score is 95, the heart rate category score. With 5500 steps and 4 hours of
  sleep the scores are 46.67 and 73.33, their average is 60 in exact arithmetic, and
  the function returns 59.
\<close>

theorem calculate_overall_score_contract:
  "((\<forall>k v. metrics k = Some v \<longrightarrow> is_double v) \<longrightarrow>
      (\<exists>r. calculate_overall_score_fl metrics = Inr r
         \<and> overall_score r
             = (if present_categories_fl metrics = [] then 70
                else py_int (f_div (float_wsum (present_categories_fl metrics))
                                   (float_wtotal (present_categories_fl metrics))))
         \<and> level r = score_level (overall_score r)))
   \<and> calculate_overall_score_fl only_heart_rate
       = Inr \<lparr>overall_score = 95, os_category_scores = [(''heart_rate'', 95)],
              level = ''excellent''\<rparr>
   \<and> calculate_overall_score_fl steps_and_sleep
       = Inr \<lparr>overall_score = 59,
              os_category_scores = [(''sleep'', 47), (''activity'', 73)],
              level = ''poor''\<rparr>"
proof (intro conjI impI)
  obtain st where st: "calculate_overall_score_fl metrics = finish_overall_score_fl st"
    "weighted_sum st = float_wsum (present_categories_fl metrics)"
    "total_weight st = float_wtotal (present_categories_fl metrics)"
    using calculate_overall_score_fl_state by blast
  let ?P = "present_categories_fl metrics"
  show "\<exists>r. calculate_overall_score_fl metrics = Inr r
         \<and> overall_score r
             = (if ?P = [] then 70 else py_int (f_div (float_wsum ?P) (float_wtotal ?P)))
         \<and> level r = score_level (overall_score r)"
  proof (cases "?P = []")
    case True
    then have "total_weight st = 0"
      by (simp add: st(3) float_wtotal_def float_wtotal_from_def)
    then show ?thesis
      using True by (simp add: st(1) finish_overall_score_fl_def)
  next
    case False
    have "0 < float_wtotal_from 0 ?P"
      using present_categories_fl_weights False by (intro float_wtotal_from_pos) auto
    then have pos: "0 < float_wtotal ?P"
      by (simp add: float_wtotal_def)
    then show ?thesis
      using False by (simp add: st finish_overall_score_fl_def f_truediv_def f_div_def)
  qed
  show "calculate_overall_score_fl only_heart_rate
       = Inr \<lparr>overall_score = 95, os_category_scores = [(''heart_rate'', 95)],
              level = ''excellent''\<rparr>"
    by (rule only_heart_rate_run)
  show "calculate_overall_score_fl steps_and_sleep
       = Inr \<lparr>overall_score = 59,
              os_category_scores = [(''sleep'', 47), (''activity'', 73)],
              level = ''poor''\<rparr>"
    by (rule steps_and_sleep_run)
qed

theorem calculate_overall_score_contract_witness:
  "dom steps_and_sleep = {''steps'', ''sleep_duration''}
   \<and> steps_and_sleep ''steps'' = Some 5500 \<and> is_double 5500
   \<and> steps_and_sleep ''sleep_duration'' = Some 4 \<and> is_double 4
   \<and> present_categories_fl steps_and_sleep \<noteq> []
   \<and> (\<exists>r. calculate_overall_score_fl steps_and_sleep = Inr r
         \<and> overall_score r
             = py_int (f_div (float_wsum (present_categories_fl steps_and_sleep))
                             (float_wtotal (present_categories_fl steps_and_sleep)))
         \<and> overall_score r = 59
         \<and> level r = ''poor'')"
proof -
  have d: "\<forall>k v. steps_and_sleep k = Some v \<longrightarrow> is_double v"
    by (auto simp: steps_and_sleep_def split: if_splits)
  have ne: "present_categories_fl steps_and_sleep \<noteq> []"
    by (simp add: present_categories_fl_def cat_entry_fl_def steps_and_sleep_def)
  note c = calculate_overall_score_contract [of steps_and_sleep]
  obtain r where r: "calculate_overall_score_fl steps_and_sleep = Inr r"
    "overall_score r
       = (if present_categories_fl steps_and_sleep = [] then 70
          else py_int (f_div (float_wsum (present_categories_fl steps_and_sleep))
                             (float_wtotal (present_categories_fl steps_and_sleep))))"
    using c d by blast
  have run: "calculate_overall_score_fl steps_and_sleep
       = Inr \<lparr>overall_score = 59,
              os_category_scores = [(''sleep'', 47), (''activity'', 73)],
              level = ''poor''\<rparr>"
    using c by (rule conjunct2 [THEN conjunct2])
  have v: "overall_score r = 59" "level r = ''poor''"
    using r(1) run by auto
  have "overall_score r
       = py_int (f_div (float_wsum (present_categories_fl steps_and_sleep))
                       (float_wtotal (present_categories_fl steps_and_sleep)))"
    using r(2) ne by simp
  then have ex: "\<exists>r. calculate_overall_score_fl steps_and_sleep = Inr r
         \<and> overall_score r
             = py_int (f_div (float_wsum (present_categories_fl steps_and_sleep))
                             (float_wtotal (present_categories_fl steps_and_sleep)))
         \<and> overall_score r = 59
         \<and> level r = ''poor''"
    using r(1) v by blast
  have dm: "dom steps_and_sleep = {''steps'', ''sleep_duration''}"
    by (auto simp: steps_and_sleep_def split: if_splits)
  have k: "steps_and_sleep ''steps'' = Some 5500" "is_double 5500"
    "steps_and_sleep ''sleep_duration'' = Some 4" "is_double 4"
    by (simp_all add: steps_and_sleep_def)
  show ?thesis
    using dm k ne ex by (intro conjI)
qed

section \<open>Results about the medical thresholds\<close>

text \<open>
  Claim C9. For the metric \<open>spo2\<close> every value of at least 100, the reading 100 itself
  included, is reported as a critical high finding; such a reading is never normal.
\<close>

theorem spo2_full_saturation_critical:
  assumes "100 \<le> v"
  shows "detect_medical_anomaly v ''spo2''
    = Some \<lparr>ma_value = v, ma_metric_type = ''spo2'', ma_unit = ''%'',
            ma_severity = ''critical'', ma_type = Some ''high'',
            ma_message = Severely_High 100\<rparr>"
  using assms by (simp add: detect_medical_anomaly_def MEDICAL_THRESHOLDS_def)

theorem spo2_full_saturation_critical_witness:
  "(100::real) \<le> 100
   \<and> detect_medical_anomaly 100 ''spo2''
      = Some \<lparr>ma_value = 100, ma_metric_type = ''spo2'', ma_unit = ''%'',
              ma_severity = ''critical'', ma_type = Some ''high'',
              ma_message = Severely_High 100\<rparr>
   \<and> detect_medical_anomaly 100 ''spo2'' \<noteq> None"
proof -
  have h: "(100::real) \<le> 100" by simp
  show ?thesis
    using spo2_full_saturation_critical [OF h] by simp
qed

section \<open>Results about the blood pressure category\<close>














section \<open>Results about the moving average\<close>

lemma py_slice_nth:
  assumes "b \<le> length xs"
  shows "py_slice xs a b = map (\<lambda>j. xs ! j) [a..<b]"
proof -
  have "take b xs = map (\<lambda>j. xs ! j) [0..<b]"
    by (rule nth_equalityI) (use assms in simp_all)
  then show ?thesis
    by (simp add: py_slice_def drop_map)
qed

lemma append_loop_map:
  assumes "\<And>i. i \<in> set ixs \<Longrightarrow> f i = Inr (g i)"
  shows "append_loop f ixs = Inr (map g ixs)"
  using assms by (induction ixs) simp_all

lemma moving_average_at_spec:
  assumes "i < length data" "0 < w"
  shows "moving_average_at data (int w) i = Inr (spec_moving_average data w i)"
proof (cases "i < w - 1")
  case True
  then have "int i < int w - 1" by linarith
  then show ?thesis
    using True assms by (simp add: moving_average_at_def spec_moving_average_def
        py_truediv_def py_slice_nth)
next
  case False
  then have ge: "\<not> int i < int w - 1" by linarith
  have idx: "nat (int i - int w + 1) = i + 1 - w"
    using False by linarith
  show ?thesis
    using False ge assms
    by (simp add: moving_average_at_def spec_moving_average_def py_truediv_def
        py_slice_nth idx)
qed

lemma calculate_moving_average_long:
  assumes "w \<le> length data" "0 < w"
  shows "calculate_moving_average data (int w)
    = Inr (map (spec_moving_average data w) [0..<length data])"
proof -
  have "append_loop (moving_average_at data (int w)) [0..<length data]
      = Inr (map (spec_moving_average data w) [0..<length data])"
    by (rule append_loop_map) (simp add: moving_average_at_spec assms(2))
  then show ?thesis
    using assms by (simp add: calculate_moving_average_def)
qed

lemma calculate_moving_average_short:
  assumes "length data < w"
  shows "calculate_moving_average data (int w) = Inr data"
  using assms by (simp add: calculate_moving_average_def)

text \<open>
  Claim C4, as stated, fails for lists shorter than the window: they are returned
  unchanged. With window 7 the list [1, 3] comes back as it is, so the element at index 1
  is 3 and not the mean 2 of the elements at indices 0 and 1.
\<close>

theorem moving_average_short_list_counterexample:
  "calculate_moving_average [1, 3] 7 = Inr [1, 3]
   \<and> spec_moving_average [1, 3] 7 1 = 2
   \<and> [1, 3 :: real] ! 1 \<noteq> spec_moving_average [1, 3] 7 1"
  by (simp add: calculate_moving_average_def spec_moving_average_def)

text \<open>
  Claim C4, amended. The function never raises for window 7 and returns a list as long
  as its input. A list of fewer than 7 elements is returned unchanged. For a list of at
  least 7 elements, the element at an index below 6 is the mean of the elements at 0..i
  and the element at an index from 6 on is the mean of the 7 elements at i-6..i. For
  the input [1, ..., 8] the element at index 7 is 5, the mean of the elements at 1..7.
\<close>

theorem calculate_moving_average_contract:
  "(\<exists>r. calculate_moving_average data 7 = Inr r \<and> length r = length data)
   \<and> (length data < 7 \<longrightarrow> calculate_moving_average data 7 = Inr data)
   \<and> (7 \<le> length data \<longrightarrow>
        (\<exists>r. calculate_moving_average data 7 = Inr r
           \<and> (\<forall>i < length data. i < 6 \<longrightarrow>
                 r ! i = sum_list (map (\<lambda>j. data ! j) [0..<i + 1]) / real (i + 1))
           \<and> (\<forall>i < length data. 6 \<le> i \<longrightarrow>
                 r ! i = sum_list (map (\<lambda>j. data ! j) [i - 6..<i + 1]) / 7)))
   \<and> (\<exists>r. calculate_moving_average [1, 2, 3, 4, 5, 6, 7, 8] 7 = Inr r
         \<and> r ! 7 = (2 + 3 + 4 + 5 + 6 + 7 + 8) / 7 \<and> r ! 7 = 5)"
proof (intro conjI impI)
  have short: "length data < 7 \<Longrightarrow> calculate_moving_average data 7 = Inr data"
    using calculate_moving_average_short [of data 7] by simp
  have long: "7 \<le> length data \<Longrightarrow> calculate_moving_average data 7
      = Inr (map (spec_moving_average data 7) [0..<length data])"
    using calculate_moving_average_long [of 7 data] by simp
  show "\<exists>r. calculate_moving_average data 7 = Inr r \<and> length r = length data"
  proof (cases "length data < 7")
    case True
    then show ?thesis using short by simp
  next
    case False
    then show ?thesis using long by simp
  qed
  show "calculate_moving_average data 7 = Inr data" if "length data < 7"
    using that by (rule short)
  show "\<exists>r. calculate_moving_average data 7 = Inr r
           \<and> (\<forall>i < length data. i < 6 \<longrightarrow>
                 r ! i = sum_list (map (\<lambda>j. data ! j) [0..<i + 1]) / real (i + 1))
           \<and> (\<forall>i < length data. 6 \<le> i \<longrightarrow>
                 r ! i = sum_list (map (\<lambda>j. data ! j) [i - 6..<i + 1]) / 7)"
    if "7 \<le> length data"
  proof (intro exI conjI allI impI)
    show "calculate_moving_average data 7
        = Inr (map (spec_moving_average data 7) [0..<length data])"
      using that by (rule long)
    show "map (spec_moving_average data 7) [0..<length data] ! i
        = sum_list (map (\<lambda>j. data ! j) [0..<i + 1]) / real (i + 1)"
      if "i < length data" "i < 6" for i
      using that by (simp add: spec_moving_average_def)
    show "map (spec_moving_average data 7) [0..<length data] ! i
        = sum_list (map (\<lambda>j. data ! j) [i - 6..<i + 1]) / 7"
      if "i < length data" "6 \<le> i" for i
    proof -
      have "i + 1 - 7 = i - 6" using that by simp
      then show ?thesis using that by (simp add: spec_moving_average_def)
    qed
  qed
  let ?L = "[1, 2, 3, 4, 5, 6, 7, 8 :: real]"
  have "calculate_moving_average ?L (int 7)
      = Inr (map (spec_moving_average ?L 7) [0..<length ?L])"
    by (rule calculate_moving_average_long) simp_all
  then have ex: "calculate_moving_average ?L 7
      = Inr (map (spec_moving_average ?L 7) [0..<length ?L])"
    by (simp only: of_nat_numeral)
  have "map (spec_moving_average ?L 7) [0..<length ?L] ! 7 = spec_moving_average ?L 7 (0 + 7)"
    by (rule nth_map_upt) simp
  moreover have "spec_moving_average ?L 7 7 = 5"
    by (simp add: spec_moving_average_def eval_nat_numeral)
  ultimately have v: "map (spec_moving_average ?L 7) [0..<length ?L] ! 7 = 5"
    by simp
  show "\<exists>r. calculate_moving_average [1, 2, 3, 4, 5, 6, 7, 8] 7 = Inr r
         \<and> r ! 7 = (2 + 3 + 4 + 5 + 6 + 7 + 8) / 7 \<and> r ! 7 = 5"
    by (intro exI conjI, rule ex) (simp_all only: v, simp)
qed

theorem calculate_moving_average_contract_witness:
  "length [1, 2, 3, 4, 5, 6, 7, 8 :: real] = 8
   \<and> (\<exists>r. calculate_moving_average [1, 2, 3, 4, 5, 6, 7, 8] 7 = Inr r
         \<and> length r = 8 \<and> r ! 0 = 1 \<and> r ! 1 = 3 / 2 \<and> r ! 6 = 4 \<and> r ! 7 = 5)"
proof -
  obtain r where r: "calculate_moving_average [1, 2, 3, 4, 5, 6, 7, 8] 7 = Inr r"
    "\<forall>i < 8. i < 6 \<longrightarrow>
       r ! i = sum_list (map (\<lambda>j. [1, 2, 3, 4, 5, 6, 7, 8 :: real] ! j) [0..<i + 1]) / real (i + 1)"
    "\<forall>i < 8. 6 \<le> i \<longrightarrow>
       r ! i = sum_list (map (\<lambda>j. [1, 2, 3, 4, 5, 6, 7, 8 :: real] ! j) [i - 6..<i + 1]) / 7"
    "length r = 8"
    using calculate_moving_average_contract [of "[1, 2, 3, 4, 5, 6, 7, 8]"] by auto
  have "r ! 0 = 1"
    using r(2) [rule_format, of 0] by simp
  moreover have "r ! 1 = 3 / 2"
    using r(2) [rule_format, of 1] by (simp add: eval_nat_numeral)
  moreover have "r ! 6 = 4"
    using r(3) [rule_format, of 6] by (simp add: eval_nat_numeral)
  moreover have "r ! 7 = 5"
    using r(3) [rule_format, of 7] by (simp add: eval_nat_numeral)
  ultimately show ?thesis using r(1,4) by simp
qed

section \<open>Results about the IQR detector\<close>

lemma iqr_loop_Cons:
  "iqr_loop lb ub ((i, data ! i) # rest)
     = (if data ! i < lb \<or> ub < data ! i
        then iqr_flag data lb ub i # iqr_loop lb ub rest
        else iqr_loop lb ub rest)"
  unfolding iqr_flag_def by (rule iqr_loop.simps(2))

lemma iqr_loop_map_filter:
  "iqr_loop lb ub (map (\<lambda>i. (i, data ! i)) ixs)
     = map (iqr_flag data lb ub) (filter (\<lambda>i. data ! i < lb \<or> ub < data ! i) ixs)"
proof (induction ixs)
  case Nil
  show ?case by simp
next
  case (Cons a ixs)
  show ?case
    by (simp only: list.map iqr_loop_Cons Cons.IH filter.simps if_distrib [of "map _"]
        cong: if_cong)
qed

lemma enumerate_py_map: "enumerate_py xs = map (\<lambda>i. (i, xs ! i)) [0..<length xs]"
  unfolding enumerate_py_def by (rule nth_equalityI) simp_all

lemma py_index_in_range:
  assumes "i < length xs"
  shows "py_index xs (int i) = Inr (xs ! i)"
  using assms by (simp add: py_index_def)

lemma detect_iqr_long:
  assumes "4 \<le> length data"
  shows "detect_iqr data multiplier
    = Inr (map (iqr_flag data (fst (iqr_bounds data multiplier)) (snd (iqr_bounds data multiplier)))
            (filter (\<lambda>i. data ! i < fst (iqr_bounds data multiplier)
                          \<or> snd (iqr_bounds data multiplier) < data ! i)
               [0..<length data]))"
proof -
  let ?n = "length data"
  have q1: "py_index (sort data) (int (?n div 4)) = Inr (sort data ! (?n div 4))"
    using assms by (intro py_index_in_range) simp
  have q3: "py_index (sort data) (int (3 * ?n div 4)) = Inr (sort data ! (3 * ?n div 4))"
    using assms by (intro py_index_in_range) simp
  show ?thesis
    using assms
    by (simp add: detect_iqr_def Let_def q1 q3 iqr_bounds_def enumerate_py_map
        iqr_loop_map_filter)
qed

text \<open>The two examples, operation by operation.\<close>

lemma iqr_example_bounds: "iqr_bounds iqr_example (3 / 2) = (7, 15)"
proof -
  have srt: "sort iqr_example = [9, 10, 10, 11, 11, 12, 100]"
    by (simp add: iqr_example_def)
  have len: "length iqr_example = 7"
    by (simp add: iqr_example_def)
  have i1: "length iqr_example div 4 = 1" and i3: "3 * length iqr_example div 4 = 5"
    by (simp_all add: len)
  have n1: "[9, 10, 10, 11, 11, 12, 100 :: real] ! 1 = 10"
    and n5: "[9, 10, 10, 11, 11, 12, 100 :: real] ! 5 = 12"
    by simp_all
  show ?thesis
    by (simp add: iqr_bounds_def Let_def srt i1 i3 n1 n5 f_sub_def f_mul_def f_add_def)
qed

lemma iqr_example_result:
  "detect_iqr iqr_example (3 / 2)
     = Inr [\<lparr>ia_index = 6, ia_value = 100, ia_lower_bound = 7, ia_upper_bound = 15,
             ia_type = ''high''\<rparr>]"
proof -
  have len: "length iqr_example = 7"
    by (simp add: iqr_example_def)
  have r7: "float_round 7 1 = 7" and r15: "float_round 15 1 = 15"
    by (simp_all add: float_round_def py_round_nd_def py_round_def)
  have up: "[0..<length iqr_example] = [0, 1, 2, 3, 4, 5, 6]"
    unfolding len by (simp add: upt_rec)
  have "4 \<le> length iqr_example"
    by (simp add: len)
  then have "detect_iqr iqr_example (3 / 2)
        = Inr (map (iqr_flag iqr_example 7 15)
                (filter (\<lambda>i. iqr_example ! i < 7 \<or> 15 < iqr_example ! i)
                   [0..<length iqr_example]))"
    using detect_iqr_long [of iqr_example "3 / 2"]
    by (simp only: iqr_example_bounds fst_conv snd_conv)
  also have "filter (\<lambda>i. iqr_example ! i < 7 \<or> 15 < iqr_example ! i) [0..<length iqr_example]
      = [6]"
    unfolding up by (simp add: iqr_example_def)
  finally show ?thesis
    by (simp add: iqr_flag_def r7 r15 iqr_example_def del: One_nat_def)
qed

lemma double_18:
  "fl (18 / 10) = 8106479329266893 / 2 ^ 52" "fl (9 / 5) = 8106479329266893 / 2 ^ 52"
  by (subst fl_eval [where e = 0], simp_all add: py_round_def)+

lemma double_48:
  "fl (48 / 10) = 5404319552844595 / 2 ^ 50" "fl (24 / 5) = 5404319552844595 / 2 ^ 50"
  by (subst fl_eval [where e = 2], simp_all add: py_round_def)+

lemma iqr_rounding_example_bounds:
  "iqr_bounds iqr_rounding_example (3 / 2) = (1 / 2 ^ 52, fl (48 / 10))"
proof -
  let ?d = "8106479329266893 / 2 ^ 52 :: real"
  have srt: "sort iqr_rounding_example = [0, ?d, 5 / 2, 3]"
    by (simp add: iqr_rounding_example_def double_18)
  have len: "length iqr_rounding_example = 4"
    by (simp add: iqr_rounding_example_def)
  have i1: "length iqr_rounding_example div 4 = 1"
    and i3: "3 * length iqr_rounding_example div 4 = 3"
    by (simp_all add: len)
  have n1: "[0, ?d, 5 / 2, 3] ! 1 = ?d" and n3: "[0, ?d, 5 / 2, 3] ! 3 = 3"
    by (simp_all add: eval_nat_numeral)
  have iqr: "f_sub 3 ?d = 5404319552844595 / 2 ^ 52"
    unfolding f_sub_def using fl_exact [of "5404319552844595 / 2 ^ 52" 5404319552844595 "- 52"]
    by simp
  have m: "f_mul (3 / 2) (5404319552844595 / 2 ^ 52) = 2026619832316723 / 2 ^ 50"
    unfolding f_mul_def by (subst fl_eval [where e = 0]) (simp_all add: py_round_def)
  have lo: "f_sub ?d (2026619832316723 / 2 ^ 50) = 1 / 2 ^ 52"
    unfolding f_sub_def using fl_exact [of "1 / 2 ^ 52" 1 "- 52"] by simp
  have hi: "f_add 3 (2026619832316723 / 2 ^ 50) = 5404319552844595 / 2 ^ 50"
    unfolding f_add_def using fl_exact [of "5404319552844595 / 2 ^ 50" 5404319552844595 "- 50"]
    by simp
  show ?thesis
    by (simp only: iqr_bounds_def Let_def srt i1 i3 n1 n3 iqr m lo hi double_48(1))
qed

lemma iqr_rounding_example_result:
  "detect_iqr iqr_rounding_example (3 / 2)
     = Inr [\<lparr>ia_index = 1, ia_value = 0, ia_lower_bound = 0, ia_upper_bound = fl (48 / 10),
             ia_type = ''low''\<rparr>]"
proof -
  have len: "length iqr_rounding_example = 4"
    by (simp add: iqr_rounding_example_def)
  have rl: "float_round (1 / 2 ^ 52) 1 = 0"
    by (simp add: float_round_def py_round_nd_def py_round_def)
  have "py_round_nd (5404319552844595 / 2 ^ 50) 1 = 48 / 10"
    by (simp add: py_round_nd_def py_round_def)
  then have rh: "float_round (fl (48 / 10)) 1 = fl (48 / 10)"
    by (simp only: float_round_def double_48(1))
  have up: "[0..<length iqr_rounding_example] = [0, 1, 2, 3]"
    unfolding len by (simp add: upt_rec)
  have "4 \<le> length iqr_rounding_example"
    by (simp add: len)
  then have "detect_iqr iqr_rounding_example (3 / 2)
        = Inr (map (iqr_flag iqr_rounding_example (1 / 2 ^ 52) (fl (48 / 10)))
                (filter (\<lambda>i. iqr_rounding_example ! i < 1 / 2 ^ 52
                              \<or> fl (48 / 10) < iqr_rounding_example ! i)
                   [0..<length iqr_rounding_example]))"
    using detect_iqr_long [of iqr_rounding_example "3 / 2"]
    by (simp only: iqr_rounding_example_bounds fst_conv snd_conv)
  also have "filter (\<lambda>i. iqr_rounding_example ! i < 1 / 2 ^ 52
                          \<or> fl (48 / 10) < iqr_rounding_example ! i)
               [0..<length iqr_rounding_example] = [1]"
    unfolding up by (simp add: iqr_rounding_example_def double_18 double_48)
  finally have run: "detect_iqr iqr_rounding_example (3 / 2)
        = Inr (map (iqr_flag iqr_rounding_example (1 / 2 ^ 52) (fl (48 / 10))) [1])" .
  have "iqr_flag iqr_rounding_example (1 / 2 ^ 52) (fl (48 / 10)) 1
      = \<lparr>ia_index = 1, ia_value = 0, ia_lower_bound = 0, ia_upper_bound = fl (48 / 10),
         ia_type = ''low''\<rparr>"
    unfolding iqr_flag_def rl rh by (simp add: iqr_rounding_example_def double_48)
  then show ?thesis
    by (simp only: run list.map)
qed

text \<open>
  Claim C5. Let the data be at least four doubles of magnitude up to \<open>2 ^ 1000\<close> and the
  multiplier a double of magnitude up to \<open>2 ^ 20\<close>, so that no operation overflows. The
  detector never raises; it takes the quartiles at the indices n div 4 and 3n div 4 of
  the sorted data, computes \<open>q1 - multiplier * iqr\<close> and \<open>q3 + multiplier * iqr\<close> in
  double arithmetic, and its result lists, in index order, exactly the values strictly
  below the first or strictly above the second of these two doubles, tagged high when
  above the upper bound and low otherwise. On [10, 11, 9, 10, 12, 11, 100] with
  multiplier 1.5 the bounds are 7 and 15 and the only finding is the value 100 at
  index 6, tagged high. On [3.0, 0.0, 2.5, 1.8] the computed lower bound is
  \<open>2 powi - 52\<close>, and the value 0.0 is flagged low.
\<close>

theorem detect_iqr_contract:
  "(4 \<le> length data \<and> (\<forall>x \<in> set data. is_double x \<and> \<bar>x\<bar> \<le> 2 ^ 1000)
      \<and> is_double multiplier \<and> \<bar>multiplier\<bar> \<le> 2 ^ 20 \<longrightarrow>
      detect_iqr data multiplier
        = Inr (map (iqr_flag data (fst (iqr_bounds data multiplier))
                      (snd (iqr_bounds data multiplier)))
                (filter (\<lambda>i. data ! i < fst (iqr_bounds data multiplier)
                              \<or> snd (iqr_bounds data multiplier) < data ! i)
                   [0..<length data])))
   \<and> iqr_bounds iqr_example (3 / 2) = (7, 15)
   \<and> detect_iqr iqr_example (3 / 2)
       = Inr [\<lparr>ia_index = 6, ia_value = 100, ia_lower_bound = 7, ia_upper_bound = 15,
               ia_type = ''high''\<rparr>]
   \<and> iqr_bounds iqr_rounding_example (3 / 2) = (1 / 2 ^ 52, fl (48 / 10))
   \<and> detect_iqr iqr_rounding_example (3 / 2)
       = Inr [\<lparr>ia_index = 1, ia_value = 0, ia_lower_bound = 0, ia_upper_bound = fl (48 / 10),
               ia_type = ''low''\<rparr>]"
proof (intro conjI impI)
  show "detect_iqr data multiplier
        = Inr (map (iqr_flag data (fst (iqr_bounds data multiplier))
                      (snd (iqr_bounds data multiplier)))
                (filter (\<lambda>i. data ! i < fst (iqr_bounds data multiplier)
                              \<or> snd (iqr_bounds data multiplier) < data ! i)
                   [0..<length data]))"
    if "4 \<le> length data \<and> (\<forall>x \<in> set data. is_double x \<and> \<bar>x\<bar> \<le> 2 ^ 1000)
      \<and> is_double multiplier \<and> \<bar>multiplier\<bar> \<le> 2 ^ 20"
    using that by (intro detect_iqr_long) simp
  show "iqr_bounds iqr_example (3 / 2) = (7, 15)"
    by (rule iqr_example_bounds)
  show "detect_iqr iqr_example (3 / 2)
       = Inr [\<lparr>ia_index = 6, ia_value = 100, ia_lower_bound = 7, ia_upper_bound = 15,
               ia_type = ''high''\<rparr>]"
    by (rule iqr_example_result)
  show "iqr_bounds iqr_rounding_example (3 / 2) = (1 / 2 ^ 52, fl (48 / 10))"
    by (rule iqr_rounding_example_bounds)
  show "detect_iqr iqr_rounding_example (3 / 2)
       = Inr [\<lparr>ia_index = 1, ia_value = 0, ia_lower_bound = 0, ia_upper_bound = fl (48 / 10),
               ia_type = ''low''\<rparr>]"
    by (rule iqr_rounding_example_result)
qed

theorem detect_iqr_contract_witness:
  "4 \<le> length iqr_rounding_example
   \<and> list_all (\<lambda>x. is_double x \<and> \<bar>x\<bar> \<le> 2 ^ 1000) iqr_rounding_example
   \<and> is_double (3 / 2) \<and> \<bar>3 / 2 :: real\<bar> \<le> 2 ^ 20
   \<and> detect_iqr iqr_rounding_example (3 / 2)
       = Inr (map (iqr_flag iqr_rounding_example (1 / 2 ^ 52) (fl (48 / 10)))
               (filter (\<lambda>i. iqr_rounding_example ! i < 1 / 2 ^ 52
                             \<or> fl (48 / 10) < iqr_rounding_example ! i)
                  [0..<length iqr_rounding_example]))"
proof -
  have l: "4 \<le> length iqr_rounding_example"
    by (simp add: iqr_rounding_example_def)
  have d: "\<forall>x \<in> set iqr_rounding_example. is_double x \<and> \<bar>x\<bar> \<le> 2 ^ 1000"
    using is_double_dyadic [of 5 1] is_double_dyadic [of 8106479329266893 52]
    by (simp add: iqr_rounding_example_def double_18)
  have m: "is_double (3 / 2)" "\<bar>3 / 2 :: real\<bar> \<le> 2 ^ 20"
    using is_double_dyadic [of 3 1] by simp_all
  have b: "iqr_bounds iqr_rounding_example (3 / 2) = (1 / 2 ^ 52, fl (48 / 10))"
    by (rule iqr_rounding_example_bounds)
  note c = detect_iqr_contract [of iqr_rounding_example "3 / 2", THEN conjunct1, rule_format,
      OF conjI [OF l conjI [OF d conjI [OF m]]]]
  have "detect_iqr iqr_rounding_example (3 / 2)
       = Inr (map (iqr_flag iqr_rounding_example (1 / 2 ^ 52) (fl (48 / 10)))
               (filter (\<lambda>i. iqr_rounding_example ! i < 1 / 2 ^ 52
                             \<or> fl (48 / 10) < iqr_rounding_example ! i)
                  [0..<length iqr_rounding_example]))"
    using c by (simp only: b fst_conv snd_conv)
  moreover have "list_all (\<lambda>x. is_double x \<and> \<bar>x\<bar> \<le> 2 ^ 1000) iqr_rounding_example"
    using d by (simp only: list_all_iff)
  ultimately show ?thesis
    using l m by (intro conjI)
qed

section \<open>Results about minimum sample counts\<close>





lemma zscore_body_empty: "zscore_body [] thr = Inl ZeroDivisionError"
  by (simp add: zscore_body_def py_truediv_def)









section \<open>Results about the Framingham calculator\<close>

lemma validate_input_iff:
  "validate_input d \<longleftrightarrow>
     30 \<le> cv_age d \<and> cv_age d \<le> 79
     \<and> (cv_gender d = gender_male \<or> cv_gender d = gender_female)
     \<and> 0 < cv_total_cholesterol d \<and> 0 < cv_hdl_cholesterol d \<and> 0 < cv_systolic_bp d"
  by (auto simp: validate_input_def)

lemma framingham_calculate_exp:
  assumes "validate_input d"
  shows "framingham_calculate d
    = bind_r (math_exp (spec_exponent d)) (\<lambda>hazard.
        Inr \<lparr>cv_risk_percentage
                = py_round_nd ((1 - c_baseline_survival (spec_table d) powr hazard) * 100) 1,
             cv_risk_level = framingham_get_risk_level
                (py_round_nd ((1 - c_baseline_survival (spec_table d) powr hazard) * 100) 1),
             cv_score = min 100 (py_int
                (py_round_nd ((1 - c_baseline_survival (spec_table d) powr hazard) * 100) 1 * 3)),
             cv_coefficient_sum = Some (py_round_nd (spec_coefficient_sum d) 4)\<rparr>)"
  unfolding framingham_calculate_def Let_def spec_exponent_def spec_coefficient_sum_def
    spec_table_def
  using assms by (simp only: not_True_eq_False if_False simp_thms)

lemma framingham_calculate_valid:
  assumes "validate_input d" "spec_exponent d \<le> 6243314768165359 / 2 ^ 43"
  shows "framingham_calculate d
    = Inr \<lparr>cv_risk_percentage = py_round_nd (spec_risk d * 100) 1,
       cv_risk_level = framingham_get_risk_level (py_round_nd (spec_risk d * 100) 1),
       cv_score = min 100 (py_int (py_round_nd (spec_risk d * 100) 1 * 3)),
       cv_coefficient_sum = Some (py_round_nd (spec_coefficient_sum d) 4)\<rparr>"
proof -
  have "math_exp (spec_exponent d) = Inr (exp (spec_exponent d))"
    using assms(2) by (simp add: math_exp_def)
  then show ?thesis
    by (simp only: framingham_calculate_exp [OF assms(1)] bind_r_Inr spec_risk_def)
qed

lemma framingham_calculate_overflow:
  assumes "validate_input d" "6243314768165359 / 2 ^ 43 < spec_exponent d"
  shows "framingham_calculate d = Inl OverflowError"
proof -
  have "math_exp (spec_exponent d) = Inl OverflowError"
    using assms(2) by (simp add: math_exp_def)
  then show ?thesis
    by (simp only: framingham_calculate_exp [OF assms(1)] bind_r_Inl)
qed

lemma py_round_nonneg: "0 \<le> x \<Longrightarrow> 0 \<le> py_round x"
  by (simp add: py_round_def Let_def)

lemma py_round_nd_nonneg: "0 \<le> x \<Longrightarrow> 0 \<le> py_round_nd x n"
  by (simp add: py_round_nd_def py_round_nonneg)

lemma baseline_survival_range:
  "0 < c_baseline_survival (spec_table d) \<and> c_baseline_survival (spec_table d) < 1"
  by (simp add: spec_table_def MALE_COEFFICIENTS_def FEMALE_COEFFICIENTS_def)

lemma spec_risk_range: "0 < spec_risk d \<and> spec_risk d < 1"
proof -
  let ?S = "c_baseline_survival (spec_table d)"
  let ?E = "exp (spec_exponent d)"
  have S: "0 < ?S" "?S < 1" using baseline_survival_range [of d] by simp_all
  have "ln ?S < 0" using S by simp
  then have "?E * ln ?S < 0" by (simp add: mult_pos_neg)
  then have "?S powr ?E < 1" using S by (simp add: powr_def)
  moreover have "0 < ?S powr ?E" using S by simp
  ultimately show ?thesis by (simp add: spec_risk_def)
qed

text \<open>Taylor bounds of the exponential function, from the Maclaurin expansion.\<close>

lemma exp_taylor_lower:
  fixes x :: real
  assumes "0 \<le> x"
  shows "1 + x + x\<^sup>2 / 2 + x ^ 3 / 6 + x ^ 4 / 24 \<le> exp x"
proof -
  obtain t where t: "exp x = (\<Sum>m<5. x ^ m / fact m) + exp t / fact 5 * x ^ 5"
    using Maclaurin_exp_le [of x 5] by blast
  have s: "(\<Sum>m<5. x ^ m / fact m) = 1 + x + x\<^sup>2 / 2 + x ^ 3 / 6 + x ^ 4 / 24"
    by (simp add: eval_nat_numeral)
  have "0 \<le> exp t / fact 5 * x ^ 5"
    using assms by simp
  then show ?thesis
    unfolding t s by simp
qed

lemma exp_taylor_upper:
  fixes x :: real
  assumes "0 \<le> x" "x \<le> 1"
  shows "exp x \<le> 1 + x + x\<^sup>2 / 2 + x ^ 3 / 6 + x ^ 4 / 24 + x ^ 5 / 120 + x ^ 6 / 240"
proof -
  obtain t where t: "\<bar>t\<bar> \<le> \<bar>x\<bar>"
      "exp x = (\<Sum>m<6. x ^ m / fact m) + exp t / fact 6 * x ^ 6"
    using Maclaurin_exp_le [of x 6] by blast
  have s: "(\<Sum>m<6. x ^ m / fact m)
      = 1 + x + x\<^sup>2 / 2 + x ^ 3 / 6 + x ^ 4 / 24 + x ^ 5 / 120"
    by (simp add: eval_nat_numeral)
  have "t \<le> 1" using t(1) assms by linarith
  then have "exp t \<le> exp 1" by simp
  then have e3: "exp t \<le> 3" using exp_le by linarith
  have f6: "fact 6 = (720::real)"
    by (simp add: eval_nat_numeral)
  have "exp t * x ^ 6 \<le> 3 * x ^ 6"
    using e3 assms(1) by (intro mult_right_mono) simp_all
  then have "exp t / fact 6 * x ^ 6 \<le> x ^ 6 / 240"
    unfolding f6 by simp
  then show ?thesis
    unfolding t(2) s by simp
qed

lemma ln2_bounds: "69 / 100 \<le> ln (2::real) \<and> ln (2::real) \<le> 139 / 200"
proof
  have "exp (69 / 100 :: real)
      \<le> 1 + 69 / 100 + (69 / 100)\<^sup>2 / 2 + (69 / 100) ^ 3 / 6 + (69 / 100) ^ 4 / 24
          + (69 / 100) ^ 5 / 120 + (69 / 100) ^ 6 / 240"
    by (rule exp_taylor_upper) simp_all
  also have "\<dots> \<le> 2" by (simp add: power_divide)
  finally have "exp (69 / 100 :: real) \<le> 2" .
  then show "69 / 100 \<le> ln (2::real)"
    by (metis ln_ge_iff zero_less_numeral)
  have "(2::real) \<le> 1 + 139 / 200 + (139 / 200)\<^sup>2 / 2 + (139 / 200) ^ 3 / 6
      + (139 / 200) ^ 4 / 24"
    by (simp add: power_divide)
  also have "\<dots> \<le> exp (139 / 200)"
    by (rule exp_taylor_lower) simp
  finally have "ln (2::real) \<le> ln (exp (139 / 200))"
    by (subst ln_le_cancel_iff) simp_all
  then show "ln (2::real) \<le> 139 / 200" by simp
qed

lemma exp_333_upper: "exp (333 / 100 :: real) \<le> 281 / 10"
proof -
  have "exp (333 / 400 :: real)
      \<le> 1 + 333 / 400 + (333 / 400)\<^sup>2 / 2 + (333 / 400) ^ 3 / 6 + (333 / 400) ^ 4 / 24
          + (333 / 400) ^ 5 / 120 + (333 / 400) ^ 6 / 240"
    by (rule exp_taylor_upper) simp_all
  also have "\<dots> \<le> 23 / 10" by (simp add: power_divide)
  finally have "exp (333 / 400 :: real) ^ 4 \<le> (23 / 10) ^ 4"
    by (intro power_mono) simp_all
  moreover have "exp (333 / 100 :: real) = exp (333 / 400) ^ 4"
    using exp_of_nat_mult [of 4 "333 / 400 :: real"] by simp
  moreover have "(23 / 10 :: real) ^ 4 \<le> 281 / 10" by (simp add: power_divide)
  ultimately show ?thesis by linarith
qed

lemma exp_316_lower: "234 / 10 \<le> exp (316 / 100 :: real)"
proof -
  have "(22 / 10 :: real) \<le> 1 + 79 / 100 + (79 / 100)\<^sup>2 / 2 + (79 / 100) ^ 3 / 6
      + (79 / 100) ^ 4 / 24"
    by (simp add: power_divide)
  also have "\<dots> \<le> exp (79 / 100)"
    by (rule exp_taylor_lower) simp
  finally have "(22 / 10 :: real) ^ 4 \<le> exp (79 / 100) ^ 4"
    by (intro power_mono) simp_all
  moreover have "exp (316 / 100 :: real) = exp (79 / 100) ^ 4"
    using exp_of_nat_mult [of 4 "79 / 100 :: real"] by simp
  moreover have "234 / 10 \<le> (22 / 10 :: real) ^ 4" by (simp add: power_divide)
  ultimately show ?thesis by linarith
qed

text \<open>The example: its exponent is a multiple of \<open>ln 2\<close> minus the mean coefficient sum.\<close>

lemma ln_powers_of_two:
  "ln (32::real) = 5 * ln 2" "ln (128::real) = 7 * ln 2" "ln (64::real) = 6 * ln 2"
  using ln_realpow [of "2::real" 5] ln_realpow [of "2::real" 7] ln_realpow [of "2::real" 6]
  by simp_all

lemma cv_example_table: "spec_table cv_example = FEMALE_COEFFICIENTS"
  using gender_male_neq_female by (auto simp: spec_table_def cv_example_def)

lemma cv_example_exponent:
  "spec_exponent cv_example = 662709 / 20000 * ln 2 - 261931 / 10000"
  unfolding spec_exponent_def spec_coefficient_sum_def cv_example_table
  by (simp add: cv_example_def FEMALE_COEFFICIENTS_def ln_powers_of_two)

lemma cv_example_exponent_small: "spec_exponent cv_example \<le> 0"
  unfolding cv_example_exponent using ln2_bounds by linarith

lemma cv_example_exp_bounds:
  "10 / 281 \<le> exp (spec_exponent cv_example) \<and> exp (spec_exponent cv_example) \<le> 10 / 234"
proof -
  let ?s = "662709 / 20000 * ln 2 - 261931 / 10000 :: real"
  have lo: "- (333 / 100) \<le> ?s" and hi: "?s \<le> - (316 / 100)"
    using ln2_bounds by linarith+
  have "exp (- (333 / 100) :: real) = 1 / exp (333 / 100)"
    by (rule exp_minus')
  moreover have "1 / (281 / 10) \<le> 1 / exp (333 / 100 :: real)"
    by (rule divide_left_mono) (use exp_333_upper in simp_all)
  moreover have "exp (- (333 / 100)) \<le> exp ?s"
    using lo by simp
  ultimately have a: "10 / 281 \<le> exp ?s" by simp
  have "exp (- (316 / 100) :: real) = 1 / exp (316 / 100)"
    by (rule exp_minus')
  moreover have "1 / exp (316 / 100 :: real) \<le> 1 / (234 / 10)"
    by (rule divide_left_mono) (use exp_316_lower in simp_all)
  moreover have "exp ?s \<le> exp (- (316 / 100))"
    using hi by simp
  ultimately have b: "exp ?s \<le> 10 / 234" by simp
  show ?thesis
    unfolding cv_example_exponent using a b by blast
qed

lemma cv_example_risk_bounds:
  "3 / 2 < spec_risk cv_example * 100 * 10 \<and> spec_risk cv_example * 100 * 10 < 5 / 2"
proof -
  define E where "E = exp (spec_exponent cv_example)"
  define S :: real where "S = 95012 / 100000"
  have Elo: "10 / 281 \<le> E" and Ehi: "E \<le> 10 / 234"
    using cv_example_exp_bounds by (simp_all add: E_def)
  have Epos: "0 \<le> E" using Elo by linarith
  have Spos: "0 < S" by (simp add: S_def)
  have risk: "spec_risk cv_example = 1 - S powr E"
    by (simp add: spec_risk_def cv_example_table E_def S_def FEMALE_COEFFICIENTS_def)
  have p: "S powr E = exp (E * ln S)"
    using Spos by (simp add: powr_def)
  have l1: "ln S \<le> - (4988 / 100000)"
    using ln_le_minus_one [OF Spos] by (simp add: S_def)
  have "ln (inverse S) \<le> inverse S - 1"
    by (rule ln_le_minus_one) (simp add: Spos)
  moreover have "inverse S - 1 = 4988 / 95012"
    by (simp add: S_def)
  ultimately have l2: "- (4988 / 95012) \<le> ln S"
    by (simp add: ln_inverse)
  have "E * (- (4988 / 95012)) \<le> E * ln S"
    by (rule mult_left_mono [OF l2 Epos])
  moreover have "10 / 234 * (- (4988 / 95012)) \<le> E * (- (4988 / 95012))"
    using Ehi by simp
  moreover have "1 + E * ln S \<le> exp (E * ln S)"
    by (rule exp_ge_add_one_self)
  ultimately have "1 - 10 / 234 * (4988 / 95012) \<le> S powr E"
    unfolding p by linarith
  then have up: "spec_risk cv_example \<le> 10 / 234 * (4988 / 95012)"
    unfolding risk by linarith
  have "E * ln S \<le> E * (- (4988 / 100000))"
    by (rule mult_left_mono [OF l1 Epos])
  moreover have "E * (- (4988 / 100000)) \<le> - (1247 / 702500)"
    using Elo by simp
  ultimately have "E * ln S \<le> - (1247 / 702500)" by linarith
  then have "exp (E * ln S) \<le> exp (- (1247 / 702500))" by simp
  moreover have "exp (- (1247 / 702500) :: real) = 1 / exp (1247 / 702500)"
    by (rule exp_minus')
  moreover have "1 / exp (1247 / 702500 :: real) \<le> 1 / (1 + 1247 / 702500)"
  proof (rule divide_left_mono)
    show "1 + 1247 / 702500 \<le> exp (1247 / 702500 :: real)"
      by (rule exp_ge_add_one_self)
  qed simp_all
  ultimately have "S powr E \<le> 702500 / 703747"
    unfolding p by simp
  then have low: "1247 / 703747 \<le> spec_risk cv_example"
    unfolding risk by linarith
  show ?thesis
    using up low by simp
qed

lemma py_round_between:
  assumes "real_of_int n - 1 / 2 < x" "x < real_of_int n + 1 / 2"
  shows "py_round x = n"
proof (cases "x < real_of_int n")
  case True
  have "\<lfloor>x\<rfloor> = n - 1"
    by (rule floor_unique) (use True assms in simp_all)
  then show ?thesis
    using assms True by (simp add: py_round_def Let_def)
next
  case False
  have "\<lfloor>x\<rfloor> = n"
    by (rule floor_unique) (use False assms in simp_all)
  then show ?thesis
    using assms False by (simp add: py_round_def Let_def)
qed

lemma cv_example_valid: "validate_input cv_example"
  by (simp add: validate_input_def cv_example_def)

lemma cv_example_risk_percentage:
  "py_round_nd (spec_risk cv_example * 100) 1 = 2 / 10"
proof -
  have "py_round (spec_risk cv_example * 100 * 10) = 2"
    by (rule py_round_between) (use cv_example_risk_bounds in simp_all)
  then show ?thesis
    by (simp add: py_round_nd_def)
qed

lemma py_int_three_fifths: "py_int (2 / 10 * 3) = 0"
  by (simp add: py_int_def)

lemma py_round_three_fifths: "py_round (2 / 10 * 3) = 1"
  by (rule py_round_between) simp_all

text \<open>The overflow example: valid, with an exponent above 710.\<close>

lemma cv_overflow_example_valid: "validate_input cv_overflow_example"
  by (simp add: validate_input_def cv_overflow_example_def)

lemma cv_overflow_example_table: "spec_table cv_overflow_example = MALE_COEFFICIENTS"
  by (simp add: spec_table_def cv_overflow_example_def)

lemma cv_overflow_example_exponent:
  "spec_exponent cv_overflow_example = 115060403 / 100000 * ln 2 - 239802 / 10000"
proof -
  have "ln ((2::real) ^ 1000) = 1000 * ln 2"
    using ln_realpow [of "2::real" 1000] by simp
  then show ?thesis
    unfolding spec_exponent_def spec_coefficient_sum_def cv_overflow_example_table
    by (simp add: cv_overflow_example_def MALE_COEFFICIENTS_def ln_powers_of_two
        del: power_numeral)
qed

lemma cv_overflow_example_exponent_large: "710 \<le> spec_exponent cv_overflow_example"
  unfolding cv_overflow_example_exponent using ln2_bounds by linarith

text \<open>
  Claim C1, as stated, fails on the score: the code truncates \<open>risk_pct * 3\<close> where the
  claim rounds it. For the woman of \<open>cv_example\<close> the risk is about 0.203 percent, the
  rounded percentage is 0.2, the code returns \<open>int(0.6) = 0\<close> and the claim's formula
  gives \<open>round(0.6) = 1\<close>.
\<close>

theorem framingham_score_round_counterexample:
  "validate_input cv_example
   \<and> (\<exists>r. framingham_calculate cv_example = Inr r
        \<and> cv_risk_percentage r = 2 / 10
        \<and> cv_score r = 0
        \<and> spec_framingham_score (cv_risk_percentage r) = 1)"
proof -
  have "spec_exponent cv_example \<le> 6243314768165359 / 2 ^ 43"
    using cv_example_exponent_small by simp
  then show ?thesis
    by (simp only: framingham_calculate_valid [OF cv_example_valid] cv_example_valid
        FraminghamResult.select_convs cv_example_risk_percentage py_int_three_fifths
        spec_framingham_score_def py_round_three_fifths simp_thms sum.inject ex_simps) simp
qed

text \<open>
  Claim C1, amended. Take a valid input (age in 30..79, one of the two accepted sexes,
  total cholesterol, HDL and systolic pressure positive) and let the exponent be
  \<open>coefficient_sum - mean_coefficient_sum\<close>, with the sex-specific table and the treated
  pressure coefficient exactly under medication. If the exponent is at most 709, the
  calculator returns: the risk percentage is
  \<open>1 - baseline_survival ^ exp(exponent)\<close> as a percentage rounded to one decimal; it is
  not negative; the level is low below 10, medium from 10 to below 20 and high from 20
  on; and the score is the smaller of 100 and \<open>risk_pct * 3\<close> truncated to an integer.
  If the exponent is 710 or more, \<open>math.exp\<close> overflows and the calculator raises
  \<open>OverflowError\<close>.
\<close>

theorem framingham_calculate_contract:
  assumes "30 \<le> cv_age d" "cv_age d \<le> 79"
    and "cv_gender d = gender_male \<or> cv_gender d = gender_female"
    and "0 < cv_total_cholesterol d" "0 < cv_hdl_cholesterol d" "0 < cv_systolic_bp d"
  shows "(spec_exponent d \<le> 709 \<longrightarrow>
      (\<exists>r. framingham_calculate d = Inr r
        \<and> cv_risk_percentage r = py_round_nd (spec_risk d * 100) 1
        \<and> 0 \<le> cv_risk_percentage r
        \<and> cv_risk_level r
            = (if cv_risk_percentage r < 10 then ''low''
               else if cv_risk_percentage r < 20 then ''medium''
               else ''high'')
        \<and> cv_score r = min 100 \<lfloor>cv_risk_percentage r * 3\<rfloor>))
    \<and> (710 \<le> spec_exponent d \<longrightarrow> framingham_calculate d = Inl OverflowError)"
proof (intro conjI impI)
  have v: "validate_input d"
    using assms by (simp add: validate_input_iff)
  let ?rp = "py_round_nd (spec_risk d * 100) 1"
  show "\<exists>r. framingham_calculate d = Inr r
        \<and> cv_risk_percentage r = py_round_nd (spec_risk d * 100) 1
        \<and> 0 \<le> cv_risk_percentage r
        \<and> cv_risk_level r
            = (if cv_risk_percentage r < 10 then ''low''
               else if cv_risk_percentage r < 20 then ''medium''
               else ''high'')
        \<and> cv_score r = min 100 \<lfloor>cv_risk_percentage r * 3\<rfloor>"
    if small: "spec_exponent d \<le> 709"
  proof -
    have "spec_exponent d \<le> 6243314768165359 / 2 ^ 43"
      using small by simp
    note run = framingham_calculate_valid [OF v this]
    have "0 \<le> spec_risk d * 100"
      using spec_risk_range [of d] by simp
    then have nn: "0 \<le> ?rp"
      by (rule py_round_nd_nonneg)
    then have "py_int (?rp * 3) = \<lfloor>?rp * 3\<rfloor>"
      by (simp add: py_int_def)
    then show ?thesis
      unfolding run using nn by (simp add: framingham_get_risk_level_def)
  qed
  show "framingham_calculate d = Inl OverflowError" if "710 \<le> spec_exponent d"
  proof -
    have "6243314768165359 / 2 ^ 43 < spec_exponent d"
      using that by simp
    then show ?thesis
      by (rule framingham_calculate_overflow [OF v])
  qed
qed

theorem framingham_calculate_contract_witness:
  "30 \<le> cv_age cv_example \<and> cv_age cv_example \<le> 79
   \<and> cv_gender cv_example = gender_female
   \<and> 0 < cv_total_cholesterol cv_example \<and> 0 < cv_hdl_cholesterol cv_example
   \<and> 0 < cv_systolic_bp cv_example
   \<and> spec_exponent cv_example \<le> 709
   \<and> (\<exists>r. framingham_calculate cv_example = Inr r
        \<and> cv_risk_percentage r = 2 / 10
        \<and> cv_risk_level r = ''low''
        \<and> cv_score r = 0)
   \<and> 30 \<le> cv_age cv_overflow_example \<and> cv_age cv_overflow_example \<le> 79
   \<and> cv_gender cv_overflow_example = gender_male
   \<and> 0 < cv_total_cholesterol cv_overflow_example
   \<and> 0 < cv_hdl_cholesterol cv_overflow_example
   \<and> 0 < cv_systolic_bp cv_overflow_example
   \<and> 710 \<le> spec_exponent cv_overflow_example
   \<and> framingham_calculate cv_overflow_example = Inl OverflowError"
proof -
  have h: "30 \<le> cv_age cv_example" "cv_age cv_example \<le> 79"
    "cv_gender cv_example = gender_male \<or> cv_gender cv_example = gender_female"
    "0 < cv_total_cholesterol cv_example" "0 < cv_hdl_cholesterol cv_example"
    "0 < cv_systolic_bp cv_example"
    by (simp_all add: cv_example_def)
  have g: "cv_gender cv_example = gender_female"
    by (simp add: cv_example_def)
  have e: "spec_exponent cv_example \<le> 709"
    using cv_example_exponent_small by simp
  have three_fifths: "\<lfloor>2 / 10 * 3 :: real\<rfloor> = 0"
    by simp
  obtain r where r: "framingham_calculate cv_example = Inr r"
    "cv_risk_percentage r = py_round_nd (spec_risk cv_example * 100) 1"
    "cv_risk_level r
       = (if cv_risk_percentage r < 10 then ''low''
          else if cv_risk_percentage r < 20 then ''medium'' else ''high'')"
    "cv_score r = min 100 \<lfloor>cv_risk_percentage r * 3\<rfloor>"
    using framingham_calculate_contract [OF h] e by blast
  have rp: "cv_risk_percentage r = 2 / 10"
    using r(2) cv_example_risk_percentage by (simp only:)
  have lv: "cv_risk_level r = ''low''"
    using r(3) unfolding rp by simp
  have sc: "cv_score r = 0"
    using r(4) unfolding rp three_fifths by simp
  have ex: "\<exists>r. framingham_calculate cv_example = Inr r
        \<and> cv_risk_percentage r = 2 / 10 \<and> cv_risk_level r = ''low'' \<and> cv_score r = 0"
    using r(1) rp lv sc by blast
  have o: "30 \<le> cv_age cv_overflow_example" "cv_age cv_overflow_example \<le> 79"
    "cv_gender cv_overflow_example = gender_male \<or> cv_gender cv_overflow_example = gender_female"
    "0 < cv_total_cholesterol cv_overflow_example" "0 < cv_hdl_cholesterol cv_overflow_example"
    "0 < cv_systolic_bp cv_overflow_example"
    by (simp_all add: cv_overflow_example_def)
  have og: "cv_gender cv_overflow_example = gender_male"
    by (simp add: cv_overflow_example_def)
  have big: "710 \<le> spec_exponent cv_overflow_example"
    by (rule cv_overflow_example_exponent_large)
  have over: "framingham_calculate cv_overflow_example = Inl OverflowError"
    using framingham_calculate_contract [OF o] big by blast
  show ?thesis
    using h(1,2,4,5,6) g e ex o(1,2,4,5,6) og big over by (intro conjI)
qed

end
